theory Spec2Isabelle
  imports Main
begin

section \<open>Python strings and integers used by the handlers\<close>

text \<open>
  A Python \<^verbatim>\<open>str\<close> is modelled as a \<^typ>\<open>string\<close> whose characters are the code
  points 0..255 (the Latin-1 range of Unicode); \<^term>\<open>of_char c\<close> is the code point.
  The built-ins below are those the handlers of \<^verbatim>\<open>dating_bot.py\<close> call:
  \<^verbatim>\<open>str.strip()\<close>, \<^verbatim>\<open>str.isdigit()\<close>, \<^verbatim>\<open>int(s)\<close>, \<^verbatim>\<open>str.split(":", 1)\<close> and the
  formatting of an integer inside an f-string.
\<close>

datatype py_error = ValueError | OverflowError | IndexError

text \<open>\<^verbatim>\<open>str.isspace\<close> on one character: U+0009..U+000D, U+001C..U+0020, U+0085, U+00A0.\<close>

definition py_isspace :: "char \<Rightarrow> bool" where
  "py_isspace c = (of_char c \<in> {9, 10, 11, 12, 13, 28, 29, 30, 31, 32, 133, 160 :: nat})"

text \<open>\<^verbatim>\<open>s.strip()\<close>: leading and trailing whitespace removed.\<close>

definition strip :: "string \<Rightarrow> string" where
  "strip s = rev (dropWhile py_isspace (rev (dropWhile py_isspace s)))"

text \<open>The ASCII decimal digits: the only characters below U+0100 that \<^verbatim>\<open>int()\<close> reads.\<close>

definition is_decimal :: "char \<Rightarrow> bool" where
  "is_decimal c = (48 \<le> (of_char c :: nat) \<and> (of_char c :: nat) \<le> 57)"

definition decimal_value :: "char \<Rightarrow> nat" where
  "decimal_value c = of_char c - 48"

text \<open>
  \<^verbatim>\<open>str.isdigit\<close> on one character: the decimal digits and, below U+0100, the
  superscripts U+00B2, U+00B3 and U+00B9, which Unicode gives the property
  Numeric_Type=Digit without making them decimal.
\<close>

definition isdigit_char :: "char \<Rightarrow> bool" where
  "isdigit_char c = (is_decimal c \<or> of_char c \<in> {178, 179, 185 :: nat})"

text \<open>\<^verbatim>\<open>s.isdigit()\<close>: at least one character and every character a digit.\<close>

definition isdigit :: "string \<Rightarrow> bool" where
  "isdigit s = (s \<noteq> [] \<and> list_all isdigit_char s)"

text \<open>
  The digit scan of \<^verbatim>\<open>int(s)\<close> in base 10: decimal digits, with single underscores
  allowed between digits. \<open>prev_us\<close> says that the previous character was an underscore.
\<close>

fun scan_digits :: "bool \<Rightarrow> nat \<Rightarrow> string \<Rightarrow> nat option" where
  "scan_digits prev_us acc [] = (if prev_us then None else Some acc)"
| "scan_digits prev_us acc (c # cs) =
     (if c = CHR ''_'' then (if prev_us then None else scan_digits True acc cs)
      else if is_decimal c then scan_digits False (acc * 10 + decimal_value c) cs
      else None)"

definition int_body :: "string \<Rightarrow> nat option" where
  "int_body s =
     (case s of [] \<Rightarrow> None
      | c # cs \<Rightarrow> if c = CHR ''_'' then None else scan_digits False 0 s)"

text \<open>
  \<^verbatim>\<open>int(s)\<close> for a string: surrounding whitespace is dropped, one sign is allowed, the
  rest must be a digit body. \<open>None\<close> is the \<^verbatim>\<open>ValueError\<close> of the source. The
  whitespace \<^verbatim>\<open>int\<close> skips is U+0009..U+000D, U+0020, U+0085 and U+00A0: unlike
  \<^verbatim>\<open>str.strip\<close> it does not skip the separators U+001C..U+001F. The interpreter's
  limit on the number of digits (4300) is above what a chat message or a button payload
  can carry and is not modelled.
\<close>

definition int_isspace :: "char \<Rightarrow> bool" where
  "int_isspace c = (of_char c \<in> {9, 10, 11, 12, 13, 32, 133, 160 :: nat})"

definition int_strip :: "string \<Rightarrow> string" where
  "int_strip s = rev (dropWhile int_isspace (rev (dropWhile int_isspace s)))"

definition py_int :: "string \<Rightarrow> int option" where
  "py_int s =
     (case int_strip s of
        [] \<Rightarrow> None
      | c # cs \<Rightarrow>
          if c = CHR ''-'' then map_option (\<lambda>n. - int n) (int_body cs)
          else if c = CHR ''+'' then map_option int (int_body cs)
          else map_option int (int_body (c # cs)))"

text \<open>The decimal rendering of an integer, as \<^verbatim>\<open>f"{n}"\<close> produces it.\<close>

definition digit_char :: "nat \<Rightarrow> char" where
  "digit_char d = ''0123456789'' ! d"

function nat_digits :: "nat \<Rightarrow> string" where
  "nat_digits n = (if n < 10 then [digit_char n] else nat_digits (n div 10) @ [digit_char (n mod 10)])"
  by pat_completeness auto
termination
  by (relation "measure id") auto

definition py_str :: "int \<Rightarrow> string" where
  "py_str i = (if i < 0 then CHR ''-'' # nat_digits (nat (- i)) else nat_digits (nat i))"

text \<open>\<^verbatim>\<open>s.split(":", 1)\<close>: one piece without a colon, else the text before the first colon and
  everything after it.\<close>

definition split_colon :: "string \<Rightarrow> string list" where
  "split_colon s =
     (case dropWhile (\<lambda>c. c \<noteq> CHR '':'') s of
        [] \<Rightarrow> [s]
      | _ # rest \<Rightarrow> [takeWhile (\<lambda>c. c \<noteq> CHR '':'') s, rest])"


definition parse_callback :: "string \<Rightarrow> (string \<times> int) option" where
  "parse_callback data =
     (case split_colon data of
        [action, target_str] \<Rightarrow>
          (case py_int target_str of None \<Rightarrow> None | Some target_id \<Rightarrow> Some (action, target_id))
      | _ \<Rightarrow> None)"

text \<open>\<^verbatim>\<open>" ".join(xs)\<close>\<close>

fun join_space :: "string list \<Rightarrow> string" where
  "join_space [] = []"
| "join_space [x] = x"
| "join_space (x # y # ys) = x @ '' '' @ join_space (y # ys)"

text \<open>Truthiness of an optional string: neither \<^verbatim>\<open>None\<close> nor empty.\<close>

definition truthy :: "string option \<Rightarrow> bool" where
  "truthy x = (case x of None \<Rightarrow> False | Some s \<Rightarrow> s \<noteq> [])"

text \<open>An optional value inside an f-string: \<^verbatim>\<open>None\<close> prints as the word None.\<close>

definition fmt_str :: "string option \<Rightarrow> string" where
  "fmt_str x = (case x of None \<Rightarrow> ''None'' | Some s \<Rightarrow> s)"

definition fmt_int :: "int option \<Rightarrow> string" where
  "fmt_int x = (case x of None \<Rightarrow> ''None'' | Some i \<Rightarrow> py_str i)"

definition newline :: string where
  "newline = [CHR 0x0A]"

section \<open>The persistent store\<close>

text \<open>
  The five tables of \<^verbatim>\<open>init_db\<close>, each a list of rows in storage order. The columns
  \<^verbatim>\<open>created_at\<close> and \<^verbatim>\<open>last_active\<close> are filled by the store and never read by
  the program; they are left out. A nullable column is an option.
\<close>

record user_row =
  u_id :: int
  u_tg_id :: int
  u_username :: "string option"
  u_name :: "string option"
  u_is_banned :: int

record profile_row =
  p_id :: int
  p_user_id :: int
  p_age :: "int option"
  p_gender :: "string option"
  p_bio :: "string option"
  p_photo_file_id :: "string option"

record like_row =
  l_id :: int
  l_from_user :: int
  l_to_user :: int

record match_row =
  m_id :: int
  m_a :: int
  m_b :: int
  m_active :: int

record report_row =
  r_id :: int
  r_reporter_id :: int
  r_reported_id :: int
  r_reason :: string

record db =
  users :: "user_row list"
  profiles :: "profile_row list"
  likes :: "like_row list"
  matches :: "match_row list"
  reports :: "report_row list"

definition init_db :: db where
  "init_db = \<lparr>users = [], profiles = [], likes = [], matches = [], reports = []\<rparr>"

text \<open>
  An \<^verbatim>\<open>INTEGER PRIMARY KEY\<close> column left out of an \<^verbatim>\<open>INSERT\<close> receives the largest
  id of the table plus one, and 1 in an empty table. (Once the largest id is the largest
  64-bit integer the store picks an unused id at random; that case is not modelled.)
\<close>

definition next_rowid :: "int list \<Rightarrow> int" where
  "next_rowid ids = (case ids of [] \<Rightarrow> 1 | x # xs \<Rightarrow> fold max xs x + 1)"

text \<open>
  The values an \<^verbatim>\<open>INTEGER\<close> column holds are the signed 64-bit integers. Binding a
  larger Python integer as a statement parameter raises \<^verbatim>\<open>OverflowError\<close>; the two
  handlers that bind an integer parsed from user text have that branch.
\<close>

definition sqlite_int :: "int \<Rightarrow> bool" where
  "sqlite_int i = (- (2 ^ 63) \<le> i \<and> i < 2 ^ 63)"

section \<open>The chat transport\<close>

text \<open>
  The sender of an update, as the handlers read it. The external id comes from the chat
  platform and fits an \<^verbatim>\<open>INTEGER\<close> column.
\<close>

record tg_user =
  tg_uid :: int
  first_name :: "string option"
  last_name :: "string option"
  tg_username :: "string option"

text \<open>\<^verbatim>\<open>update.message\<close> as \<open>relay_messages\<close> reads it: only its text matters.\<close>

datatype message = Message (msg_text: "string option")

text \<open>
  The outbound calls of the handlers, in the order they are made. A keyboard is the list
  of its buttons, each a label and its callback data. A call is recorded when it is made;
  only the \<^verbatim>\<open>send_message\<close> of the relay, which the source wraps in \<^verbatim>\<open>try\<close>, has a
  modelled failure. Every handler commits what it writes before it returns, so the
  statements act on the store directly.
\<close>

datatype action =
    ReplyText string
  | ReplyTextKeyboard string "(string \<times> string) list"
  | ReplyPhoto string string "(string \<times> string) list"
  | Answer
  | EditMessageText string
  | SendMessage int string

text \<open>
  The reply texts of the source. The emoji that opens the match message, and those on the
  two buttons, lie outside the modelled character range and are left out with the space
  that follows them.
\<close>

definition msg_not_recognized :: string where
  "msg_not_recognized = ''Sorry, action not recognized. Please try /find again.''"

definition msg_skipped :: string where
  "msg_skipped = ''Skipped! Use /find to see other profiles.''"

definition msg_match :: string where
  "msg_match = ''It's a MATCH! You can now chat anonymously via the bot.''"

definition msg_new_match :: string where
  "msg_new_match = ''You've got a new match! Start chatting via the bot.''"

definition msg_liked :: string where
  "msg_liked = ''Liked! Waiting for a mutual like.''"

definition msg_unknown_action :: string where
  "msg_unknown_action = ''Unknown action. Use /find to try again.''"

definition msg_no_profiles :: string where
  "msg_no_profiles = ''No profiles available right now. Try again later.''"

definition msg_no_account :: string where
  "msg_no_account = ''No account found.''"

definition msg_deleted :: string where
  "msg_deleted = ''Your account and data have been deleted.''"

definition msg_only_text :: string where
  "msg_only_text = ''Only text messages are relayed in this prototype.''"

definition msg_no_active_match :: string where
  "msg_no_active_match = ''You don't have an active match. Use /find to match with someone.''"

definition msg_no_contact :: string where
  "msg_no_contact = ''Could not find your match's contact.''"

definition msg_sent :: string where
  "msg_sent = ''Sent to your match.''"

definition msg_send_failed :: string where
  "msg_send_failed = ''Failed to send message. The other user might have blocked the bot or hasn't started it.''"

definition msg_report_usage :: string where
  "msg_report_usage = ''Usage: /report <tg_id> <reason>''"

definition msg_report_numeric :: string where
  "msg_report_numeric = ''Provide a numeric Telegram ID.''"

definition msg_user_not_found :: string where
  "msg_user_not_found = ''User not found.''"

definition msg_report_received :: string where
  "msg_report_received = ''Report received. Admin will review it.''"

section \<open>The identity resolver\<close>

text \<open>
  \<^verbatim>\<open>ensure_user\<close>: the id of the first row with the sender's external id, else a new
  row, committed, and its id. The stored name is
  \<^verbatim>\<open>f"{first} {last}".strip() or tg_user.username or ""\<close>.
\<close>

definition or_empty :: "string option \<Rightarrow> string" where
  "or_empty x = (case x of None \<Rightarrow> [] | Some s \<Rightarrow> s)"

definition display_name :: "tg_user \<Rightarrow> string" where
  "display_name tg_user =
     (let first = or_empty (first_name tg_user);
          last = or_empty (last_name tg_user);
          full = strip (first @ '' '' @ last)
      in if full \<noteq> [] then full
         else if truthy (tg_username tg_user) then the (tg_username tg_user)
         else [])"

definition ensure_user :: "db \<Rightarrow> tg_user \<Rightarrow> int \<times> db" where
  "ensure_user db_conn tg_user =
     (case find (\<lambda>r. u_tg_id r = tg_uid tg_user) (users db_conn) of
        Some row \<Rightarrow> (u_id row, db_conn)
      | None \<Rightarrow>
          (let lastrowid = next_rowid (map u_id (users db_conn))
           in (lastrowid,
               db_conn\<lparr>users := users db_conn @
                 [\<lparr>u_id = lastrowid, u_tg_id = tg_uid tg_user,
                   u_username = tg_username tg_user,
                   u_name = Some (display_name tg_user), u_is_banned = 0\<rparr>]\<rparr>)))"

section \<open>Account deletion\<close>

definition delete_account :: "db \<Rightarrow> tg_user \<Rightarrow> db \<times> action list" where
  "delete_account db tg_user =
     (case find (\<lambda>r. u_tg_id r = tg_uid tg_user) (users db) of
        None \<Rightarrow> (db, [ReplyText msg_no_account])
      | Some row \<Rightarrow>
          (let user_id = u_id row
           in (db\<lparr>profiles := filter (\<lambda>p. \<not> p_user_id p = user_id) (profiles db),
                  likes := filter (\<lambda>l. \<not> (l_from_user l = user_id \<or> l_to_user l = user_id)) (likes db),
                  matches := filter (\<lambda>m. \<not> (m_a m = user_id \<or> m_b m = user_id)) (matches db),
                  reports := filter (\<lambda>r. \<not> (r_reporter_id r = user_id \<or> r_reported_id r = user_id)) (reports db),
                  users := filter (\<lambda>u. \<not> u_id u = user_id) (users db)\<rparr>,
               [ReplyText msg_deleted])))"

section \<open>Discovery\<close>

text \<open>
  The query of \<^verbatim>\<open>find_handler\<close>: profiles joined with their user rows, the requester's
  own profile and the profiles of users the requester has liked removed. The rows are
  listed in the storage order of the profiles; the query has no \<^verbatim>\<open>ORDER BY\<close>, and the
  results below hold for every row of the list, not only for the first.
\<close>

definition liked_by :: "db \<Rightarrow> int \<Rightarrow> int list" where
  "liked_by db user_id = map l_to_user (filter (\<lambda>l. l_from_user l = user_id) (likes db))"

definition find_rows :: "db \<Rightarrow> int \<Rightarrow> (profile_row \<times> user_row) list" where
  "find_rows db user_id =
     concat (map (\<lambda>p. map (\<lambda>u. (p, u)) (filter (\<lambda>u. p_user_id p = u_id u) (users db)))
       (filter (\<lambda>p. p_user_id p \<noteq> user_id \<and> p_user_id p \<notin> set (liked_by db user_id))
          (profiles db)))"

type_synonym find_row =
  "int \<times> int option \<times> string option \<times> string option \<times> string option \<times> string option \<times> string option"

definition select_columns :: "profile_row \<times> user_row \<Rightarrow> find_row" where
  "select_columns pu =
     (case pu of (p, u) \<Rightarrow>
        (p_user_id p, p_age p, p_gender p, p_bio p, p_photo_file_id p, u_username u, u_name u))"

text \<open>\<^verbatim>\<open>LIMIT 1\<close> and \<^verbatim>\<open>fetchone\<close>.\<close>

definition find_query :: "db \<Rightarrow> int \<Rightarrow> find_row option" where
  "find_query db user_id =
     (case find_rows db user_id of [] \<Rightarrow> None | pu # _ \<Rightarrow> Some (select_columns pu))"

definition profile_text :: "find_row \<Rightarrow> string" where
  "profile_text row =
     (case row of (to_user_id, age, gender, bio, photo_id, username, name) \<Rightarrow>
        fmt_str name @ '' (@'' @ (if truthy username then the username else ''user'') @ '')'' @ newline
        @ ''Age: '' @ fmt_int age @ newline
        @ ''Gender: '' @ fmt_str gender @ newline
        @ ''Bio: '' @ fmt_str bio)"

definition keyboard :: "int \<Rightarrow> (string \<times> string) list" where
  "keyboard to_user_id =
     [(''Like'', ''like:'' @ py_str to_user_id), (''Skip'', ''skip:'' @ py_str to_user_id)]"

definition find_handler :: "db \<Rightarrow> tg_user \<Rightarrow> db \<times> action list" where
  "find_handler db tg_user =
     (case ensure_user db tg_user of (user_id, db1) \<Rightarrow>
        (case find_query db1 user_id of
           None \<Rightarrow> (db1, [ReplyText msg_no_profiles])
         | Some row \<Rightarrow>
             (case row of (to_user_id, age, gender, bio, photo_id, username, name) \<Rightarrow>
                if truthy photo_id
                then (db1, [ReplyPhoto (the photo_id) (profile_text row) (keyboard to_user_id)])
                else (db1, [ReplyTextKeyboard (profile_text row) (keyboard to_user_id)]))))"

section \<open>Likes and matches\<close>

definition insert_like :: "db \<Rightarrow> int \<Rightarrow> int \<Rightarrow> db" where
  "insert_like db from_user target_id =
     db\<lparr>likes := likes db @
       [\<lparr>l_id = next_rowid (map l_id (likes db)), l_from_user = from_user, l_to_user = target_id\<rparr>]\<rparr>"

definition insert_match :: "db \<Rightarrow> int \<Rightarrow> int \<Rightarrow> db" where
  "insert_match db from_user target_id =
     db\<lparr>matches := matches db @
       [\<lparr>m_id = next_rowid (map m_id (matches db)), m_a = from_user, m_b = target_id, m_active = 1\<rparr>]\<rparr>"

text \<open>The branch \<^verbatim>\<open>action == "like"\<close> of \<^verbatim>\<open>callback_query_handler\<close>.\<close>

definition like_action :: "db \<Rightarrow> int \<Rightarrow> int \<Rightarrow> db \<times> action list \<times> py_error option" where
  "like_action db from_user target_id =
     (if \<not> sqlite_int target_id then (db, [Answer], Some OverflowError)
      else
        let already_like =
              find (\<lambda>l. l_from_user l = from_user \<and> l_to_user l = target_id) (likes db);
            db2 = (if already_like = None then insert_like db from_user target_id else db);
            mutual = find (\<lambda>l. l_from_user l = target_id \<and> l_to_user l = from_user) (likes db2)
        in if mutual \<noteq> None then
             let already =
                   find (\<lambda>m. (m_a m = from_user \<and> m_b m = target_id)
                              \<or> (m_a m = target_id \<and> m_b m = from_user)) (matches db2);
                 db3 = (if already = None then insert_match db2 from_user target_id else db2);
                 row = find (\<lambda>u. u_id u = target_id) (users db3)
             in (db3,
                 [Answer, EditMessageText msg_match]
                 @ (case row of None \<Rightarrow> [] | Some r \<Rightarrow> [SendMessage (u_tg_id r) msg_new_match]),
                 None)
           else (db2, [Answer, EditMessageText msg_liked], None))"

definition callback_query_handler ::
    "db \<Rightarrow> tg_user \<Rightarrow> string option \<Rightarrow> db \<times> action list \<times> py_error option" where
  "callback_query_handler db user qdata =
     (let data = or_empty qdata
      in case parse_callback data of
           None \<Rightarrow> (db, [Answer, EditMessageText msg_not_recognized], None)
         | Some (action, target_id) \<Rightarrow>
             (case ensure_user db user of (from_user, db1) \<Rightarrow>
                if action = ''skip'' then (db1, [Answer, EditMessageText msg_skipped], None)
                else if action = ''like'' then like_action db1 from_user target_id
                else (db1, [Answer, EditMessageText msg_unknown_action], None)))"

section \<open>Relay\<close>

text \<open>
  \<open>net chat_id text\<close> says whether the transport delivers \<^verbatim>\<open>send_message\<close>; the
  handler catches the failure and tells the sender.
\<close>

definition relay_messages ::
    "(int \<Rightarrow> string \<Rightarrow> bool) \<Rightarrow> db \<Rightarrow> tg_user \<Rightarrow> message option \<Rightarrow> db \<times> action list" where
  "relay_messages net db sender_tg upd_message =
     (case upd_message of
        None \<Rightarrow> (db, [])
      | Some msg \<Rightarrow>
          (case msg_text msg of
             None \<Rightarrow> (db, [ReplyText msg_only_text])
           | Some txt \<Rightarrow>
               (case ensure_user db sender_tg of (sender_id, db1) \<Rightarrow>
                  (case find (\<lambda>m. (m_a m = sender_id \<or> m_b m = sender_id) \<and> m_active m = 1)
                          (matches db1) of
                     None \<Rightarrow> (db1, [ReplyText msg_no_active_match])
                   | Some match \<Rightarrow>
                       (let other = (if m_a match = sender_id then m_b match else m_a match)
                        in case find (\<lambda>u. u_id u = other) (users db1) of
                             None \<Rightarrow> (db1, [ReplyText msg_no_contact])
                           | Some row \<Rightarrow>
                               (let other_tg = u_tg_id row;
                                    sender_label = ''Anonymous#'' @ py_str sender_id;
                                    out = sender_label @ '':'' @ newline @ txt
                                in (db1,
                                    [SendMessage other_tg out,
                                     ReplyText (if net other_tg out then msg_sent
                                                else msg_send_failed)])))))))"

section \<open>Reports\<close>

definition insert_report :: "db \<Rightarrow> int \<Rightarrow> int \<Rightarrow> string \<Rightarrow> db" where
  "insert_report db reporter_id reported_id reason =
     db\<lparr>reports := reports db @
       [\<lparr>r_id = next_rowid (map r_id (reports db)), r_reporter_id = reporter_id,
         r_reported_id = reported_id, r_reason = reason\<rparr>]\<rparr>"

definition report_handler ::
    "db \<Rightarrow> tg_user \<Rightarrow> string list \<Rightarrow> db \<times> action list \<times> py_error option" where
  "report_handler db tg_user args =
     (if length args < 2 then (db, [ReplyText msg_report_usage], None)
      else case py_int (hd args) of
             None \<Rightarrow> (db, [ReplyText msg_report_numeric], None)
           | Some target_tg \<Rightarrow>
               (let reason = join_space (tl args)
                in case ensure_user db tg_user of (reporter_id, db1) \<Rightarrow>
                     if \<not> sqlite_int target_tg then (db1, [], Some OverflowError)
                     else case find (\<lambda>u. u_tg_id u = target_tg) (users db1) of
                            None \<Rightarrow> (db1, [ReplyText msg_user_not_found], None)
                          | Some row \<Rightarrow>
                              (insert_report db1 reporter_id (u_id row) reason,
                               [ReplyText msg_report_received], None)))"

section \<open>The profile builder\<close>

text \<open>
  The states of the dialogue and \<^verbatim>\<open>ConversationHandler.END\<close>; a handler returns the next
  one. \<^verbatim>\<open>ctx.user_data\<close> is a dictionary with the keys name, age, gender, bio and photo:
  a record of options, \<open>None\<close> for an absent key, as \<^verbatim>\<open>user_data.get\<close> reads it.
\<close>

datatype conv_state = A_NAME | A_AGE | A_GENDER | A_BIO | A_PHOTO | END

record user_data =
  ud_name :: "string option"
  ud_age :: "int option"
  ud_gender :: "string option"
  ud_bio :: "string option"
  ud_photo :: "string option"

definition empty_user_data :: user_data where
  "empty_user_data =
     \<lparr>ud_name = None, ud_age = None, ud_gender = None, ud_bio = None, ud_photo = None\<rparr>"

definition msg_ask_name :: string where
  "msg_ask_name = ''Welcome! What's your full name?''"

definition msg_bad_name :: string where
  "msg_bad_name = ''Please enter a valid name (at least 2 characters).''"

definition msg_ask_age :: string where
  "msg_ask_age = ''How old are you?''"

definition msg_age_number :: string where
  "msg_age_number = ''Please send a number for age.''"

definition msg_must_be_18 :: string where
  "msg_must_be_18 = ''You must be 18+ to use this bot.''"

definition msg_ask_gender :: string where
  "msg_ask_gender = ''What's your gender? (Male/Female/Other)''"

definition msg_ask_bio :: string where
  "msg_ask_bio = ''Write a short bio about yourself (1-2 lines):''"

definition msg_ask_photo :: string where
  "msg_ask_photo = ''Send a profile photo or /skip to continue without one.''"

definition msg_saved :: string where
  "msg_saved = ''Profile saved! Use /find to browse others.''"

definition msg_saved_no_photo :: string where
  "msg_saved_no_photo = ''Profile saved without photo! Use /find.''"

definition create_profile_start :: "action list \<times> conv_state" where
  "create_profile_start = ([ReplyText msg_ask_name], A_NAME)"

definition profile_name :: "user_data \<Rightarrow> string \<Rightarrow> action list \<times> conv_state \<times> user_data" where
  "profile_name ud txt =
     (let name = strip txt
      in if length name < 2 then ([ReplyText msg_bad_name], A_NAME, ud)
         else ([ReplyText msg_ask_age], A_AGE, ud\<lparr>ud_name := Some name\<rparr>))"

text \<open>
  \<^verbatim>\<open>profile_age\<close>. The call \<^verbatim>\<open>int(text)\<close> stands outside any \<^verbatim>\<open>try\<close>: where it
  raises, the handler raises, having sent nothing.
\<close>

definition profile_age ::
    "user_data \<Rightarrow> string \<Rightarrow> py_error + (action list \<times> conv_state \<times> user_data)" where
  "profile_age ud txt =
     (let t = strip txt
      in if \<not> isdigit t then Inr ([ReplyText msg_age_number], A_AGE, ud)
         else case py_int t of
                None \<Rightarrow> Inl ValueError
              | Some age \<Rightarrow>
                  if age < 18 then Inr ([ReplyText msg_must_be_18], END, ud)
                  else Inr ([ReplyText msg_ask_gender], A_GENDER, ud\<lparr>ud_age := Some age\<rparr>))"

definition profile_gender :: "user_data \<Rightarrow> string \<Rightarrow> action list \<times> conv_state \<times> user_data" where
  "profile_gender ud txt = ([ReplyText msg_ask_bio], A_BIO, ud\<lparr>ud_gender := Some (strip txt)\<rparr>)"

definition profile_bio :: "user_data \<Rightarrow> string \<Rightarrow> action list \<times> conv_state \<times> user_data" where
  "profile_bio ud txt = ([ReplyText msg_ask_photo], A_PHOTO, ud\<lparr>ud_bio := Some (strip txt)\<rparr>)"

text \<open>\<^verbatim>\<open>UPDATE users SET name = ? WHERE id = ?\<close>\<close>

definition update_user_name :: "db \<Rightarrow> string option \<Rightarrow> int \<Rightarrow> db" where
  "update_user_name db name user_id =
     db\<lparr>users := map (\<lambda>u. if u_id u = user_id then u\<lparr>u_name := name\<rparr> else u) (users db)\<rparr>"

text \<open>
  \<^verbatim>\<open>INSERT OR REPLACE INTO profiles\<close>: the row that holds the same \<^verbatim>\<open>user_id\<close> (the
  column is unique) is deleted and the new row appended, with a fresh id.
\<close>

definition replace_profile ::
    "db \<Rightarrow> int \<Rightarrow> int option \<Rightarrow> string option \<Rightarrow> string option \<Rightarrow> string option \<Rightarrow> db" where
  "replace_profile db user_id age gender bio photo =
     db\<lparr>profiles := filter (\<lambda>p. p_user_id p \<noteq> user_id) (profiles db) @
       [\<lparr>p_id = next_rowid (map p_id (profiles db)), p_user_id = user_id, p_age = age,
         p_gender = gender, p_bio = bio, p_photo_file_id = photo\<rparr>]\<rparr>"

text \<open>\<^verbatim>\<open>profile_photo\<close>: \<open>photo\<close> is \<^verbatim>\<open>update.message.photo\<close>, the file ids of its sizes;
  \<^verbatim>\<open>photo[-1]\<close> raises on an empty one.\<close>

definition profile_photo ::
    "db \<Rightarrow> user_data \<Rightarrow> tg_user \<Rightarrow> string list
       \<Rightarrow> py_error + (db \<times> action list \<times> conv_state \<times> user_data)" where
  "profile_photo db ud tg_user photo =
     (if photo = [] then Inl IndexError
      else
        let file_id = last photo;
            ud1 = ud\<lparr>ud_photo := Some file_id\<rparr>
        in case ensure_user db tg_user of (user_id, db1) \<Rightarrow>
             (let db2 = update_user_name db1 (ud_name ud1) user_id;
                  db3 = replace_profile db2 user_id (ud_age ud1) (ud_gender ud1) (ud_bio ud1)
                          (ud_photo ud1)
              in Inr (db3, [ReplyText msg_saved], END, empty_user_data)))"

definition skip_photo ::
    "db \<Rightarrow> user_data \<Rightarrow> tg_user \<Rightarrow> db \<times> action list \<times> conv_state \<times> user_data" where
  "skip_photo db ud tg_user =
     (case ensure_user db tg_user of (user_id, db1) \<Rightarrow>
        (let db2 = update_user_name db1 (ud_name ud) user_id;
             db3 = replace_profile db2 user_id (ud_age ud) (ud_gender ud) (ud_bio ud) None
         in (db3, [ReplyText msg_saved_no_photo], END, empty_user_data)))"

section \<open>The running service\<close>

text \<open>
  The store and the \<^verbatim>\<open>user_data\<close> of every sender, keyed by external id. An event is one
  call of a handler that writes one of them, as \<^verbatim>\<open>build_and_run\<close> registers them; the
  handlers \<^verbatim>\<open>start\<close>, \<^verbatim>\<open>help_cmd\<close> and \<^verbatim>\<open>myprofile\<close> write nothing and
  \<^verbatim>\<open>create_profile_start\<close> only replies. \<open>handle\<close> lets any handler run at any time: every
  order in which the dialogue can call its handlers is one of those. A handler that raises
  keeps what it had committed before. Every call a handler makes to the requester stands
  before all of its writes or after them, so a failure of the transport in such a call
  leaves the store as an event, or no event, of a run does.
\<close>

datatype event =
    EvProfileName string
  | EvProfileAge string
  | EvProfileGender string
  | EvProfileBio string
  | EvProfilePhoto "string list"
  | EvSkipPhoto
  | EvFind
  | EvDeleteAccount
  | EvCallback "string option"
  | EvRelay "message option"
  | EvReport "string list"

record system =
  sys_db :: db
  sys_user_data :: "int \<Rightarrow> user_data"

definition init_system :: system where
  "init_system = \<lparr>sys_db = init_db, sys_user_data = (\<lambda>_. empty_user_data)\<rparr>"

definition set_user_data :: "system \<Rightarrow> tg_user \<Rightarrow> user_data \<Rightarrow> system" where
  "set_user_data s tg_user ud = s\<lparr>sys_user_data := (sys_user_data s)(tg_uid tg_user := ud)\<rparr>"

fun handle :: "(int \<Rightarrow> string \<Rightarrow> bool) \<Rightarrow> system \<Rightarrow> tg_user \<times> event \<Rightarrow> system" where
  "handle net s (u, EvProfileName txt) =
     (case profile_name (sys_user_data s (tg_uid u)) txt of (_, _, ud) \<Rightarrow> set_user_data s u ud)"
| "handle net s (u, EvProfileAge txt) =
     (case profile_age (sys_user_data s (tg_uid u)) txt of
        Inl _ \<Rightarrow> s
      | Inr (_, _, ud) \<Rightarrow> set_user_data s u ud)"
| "handle net s (u, EvProfileGender txt) =
     (case profile_gender (sys_user_data s (tg_uid u)) txt of (_, _, ud) \<Rightarrow> set_user_data s u ud)"
| "handle net s (u, EvProfileBio txt) =
     (case profile_bio (sys_user_data s (tg_uid u)) txt of (_, _, ud) \<Rightarrow> set_user_data s u ud)"
| "handle net s (u, EvProfilePhoto photo) =
     (case profile_photo (sys_db s) (sys_user_data s (tg_uid u)) u photo of
        Inl _ \<Rightarrow> s
      | Inr (db', _, _, ud) \<Rightarrow> set_user_data (s\<lparr>sys_db := db'\<rparr>) u ud)"
| "handle net s (u, EvSkipPhoto) =
     (case skip_photo (sys_db s) (sys_user_data s (tg_uid u)) u of
        (db', _, _, ud) \<Rightarrow> set_user_data (s\<lparr>sys_db := db'\<rparr>) u ud)"
| "handle net s (u, EvFind) = s\<lparr>sys_db := fst (find_handler (sys_db s) u)\<rparr>"
| "handle net s (u, EvDeleteAccount) = s\<lparr>sys_db := fst (delete_account (sys_db s) u)\<rparr>"
| "handle net s (u, EvCallback qdata) = s\<lparr>sys_db := fst (callback_query_handler (sys_db s) u qdata)\<rparr>"
| "handle net s (u, EvRelay m) = s\<lparr>sys_db := fst (relay_messages net (sys_db s) u m)\<rparr>"
| "handle net s (u, EvReport args) = s\<lparr>sys_db := fst (report_handler (sys_db s) u args)\<rparr>"

definition run :: "(int \<Rightarrow> string \<Rightarrow> bool) \<Rightarrow> (tg_user \<times> event) list \<Rightarrow> system" where
  "run net evs = foldl (handle net) init_system evs"

section \<open>Notions used by the properties\<close>

definition count_users :: "db \<Rightarrow> int \<Rightarrow> nat" where
  "count_users db t = length (filter (\<lambda>r. u_tg_id r = t) (users db))"

text \<open>A like row from \<open>x\<close> to \<open>y\<close> exists; the number of such rows.\<close>

definition has_like :: "db \<Rightarrow> int \<Rightarrow> int \<Rightarrow> bool" where
  "has_like db x y = list_ex (\<lambda>l. l_from_user l = x \<and> l_to_user l = y) (likes db)"

definition count_likes :: "db \<Rightarrow> int \<Rightarrow> int \<Rightarrow> nat" where
  "count_likes db x y = length (filter (\<lambda>l. l_from_user l = x \<and> l_to_user l = y) (likes db))"

text \<open>The number of match rows for the unordered pair of \<open>x\<close> and \<open>y\<close>.\<close>

definition count_matches :: "db \<Rightarrow> int \<Rightarrow> int \<Rightarrow> nat" where
  "count_matches db x y =
     length (filter (\<lambda>m. (m_a m = x \<and> m_b m = y) \<or> (m_a m = y \<and> m_b m = x)) (matches db))"

text \<open>An active match row holds the user.\<close>

definition has_active_match :: "db \<Rightarrow> int \<Rightarrow> bool" where
  "has_active_match db user_id =
     list_ex (\<lambda>m. (m_a m = user_id \<or> m_b m = user_id) \<and> m_active m = 1) (matches db)"

definition is_send :: "action \<Rightarrow> bool" where
  "is_send a = (case a of SendMessage _ _ \<Rightarrow> True | _ \<Rightarrow> False)"

text \<open>
  What the likes and matches of a store satisfy after any run: a pair of users has at most
  one like row in each direction and at most one match row; a mutual like has its match
  row; a match row has both its likes.
\<close>

definition likes_matches_ok :: "db \<Rightarrow> bool" where
  "likes_matches_ok db =
     ((\<forall>x y. count_likes db x y \<le> 1)
      \<and> (\<forall>x y. count_matches db x y \<le> 1)
      \<and> (\<forall>x y. has_like db x y \<longrightarrow> has_like db y x \<longrightarrow> count_matches db x y = 1)
      \<and> (\<forall>m \<in> set (matches db). has_like db (m_a m) (m_b m) \<and> has_like db (m_b m) (m_a m)))"

text \<open>The constraints of the schema on the users table: the id and the external id are unique.\<close>

definition users_ok :: "db \<Rightarrow> bool" where
  "users_ok db = (distinct (map u_id (users db)) \<and> distinct (map u_tg_id (users db)))"

text \<open>An age that is stored or collected: absent, or at least 18.\<close>

definition age_ok :: "int option \<Rightarrow> bool" where
  "age_ok a = (case a of None \<Rightarrow> True | Some n \<Rightarrow> 18 \<le> n)"

text \<open>Every profile row belongs to a user row.\<close>

definition profiles_owned :: "db \<Rightarrow> bool" where
  "profiles_owned db = list_all (\<lambda>p. list_ex (\<lambda>r. u_id r = p_user_id p) (users db)) (profiles db)"

text \<open>What holds of the service after any run.\<close>

definition sys_ok :: "system \<Rightarrow> bool" where
  "sys_ok s =
     (likes_matches_ok (sys_db s) \<and> users_ok (sys_db s)
      \<and> (\<forall>p \<in> set (profiles (sys_db s)). age_ok (p_age p))
      \<and> (\<forall>k. age_ok (ud_age (sys_user_data s k))))"

subsection \<open>Example data\<close>

definition ann :: tg_user where
  "ann = \<lparr>tg_uid = 1001, first_name = Some ''Ann'', last_name = None, tg_username = Some ''ann_b''\<rparr>"

definition ann_row :: user_row where
  "ann_row = \<lparr>u_id = 1, u_tg_id = 1001, u_username = Some ''ann_b'', u_name = Some ''Ann'', u_is_banned = 0\<rparr>"

definition bob :: tg_user where
  "bob = \<lparr>tg_uid = 1002, first_name = None, last_name = None, tg_username = Some ''bob''\<rparr>"

definition bob_row :: user_row where
  "bob_row = \<lparr>u_id = 2, u_tg_id = 1002, u_username = Some ''bob'', u_name = Some ''bob'', u_is_banned = 0\<rparr>"

text \<open>A transport that delivers every message.\<close>

definition net_up :: "int \<Rightarrow> string \<Rightarrow> bool" where
  "net_up chat_id msg = True"

text \<open>Ann likes user 2 before that user exists; Bob, who becomes user 2, likes Ann back.\<close>

definition two_likes :: "(tg_user \<times> event) list" where
  "two_likes = [(ann, EvCallback (Some ''like:2'')), (bob, EvCallback (Some ''like:1''))]"

definition db_two_likes :: db where
  "db_two_likes =
     \<lparr>users = [ann_row, bob_row], profiles = [],
      likes = [\<lparr>l_id = 1, l_from_user = 1, l_to_user = 2\<rparr>, \<lparr>l_id = 2, l_from_user = 2, l_to_user = 1\<rparr>],
      matches = [\<lparr>m_id = 1, m_a = 2, m_b = 1, m_active = 1\<rparr>], reports = []\<rparr>"

text \<open>The store after Ann's first contact, and after her like of user 2.\<close>

definition db_ann :: db where
  "db_ann = \<lparr>users = [ann_row], profiles = [], likes = [], matches = [], reports = []\<rparr>"

definition db_ann_likes :: db where
  "db_ann_likes =
     \<lparr>users = [ann_row], profiles = [],
      likes = [\<lparr>l_id = 1, l_from_user = 1, l_to_user = 2\<rparr>], matches = [], reports = []\<rparr>"

text \<open>The store after Ann has pressed a like button that names herself.\<close>

definition db_ann_self :: db where
  "db_ann_self =
     \<lparr>users = [ann_row], profiles = [],
      likes = [\<lparr>l_id = 1, l_from_user = 1, l_to_user = 1\<rparr>],
      matches = [\<lparr>m_id = 1, m_a = 1, m_b = 1, m_active = 1\<rparr>], reports = []\<rparr>"

text \<open>A report by Ann, who has no account yet, of an external id that no user holds.\<close>

definition report_args :: "string list" where
  "report_args = [''555'', ''spam'', ''links'']"

text \<open>
  A store where Ann (user 1) and Bob (user 2) have profiles, have liked each other, are
  matched and have reported each other; and what is left of it once Ann's account is
  deleted.
\<close>

definition ann_profile :: profile_row where
  "ann_profile = \<lparr>p_id = 1, p_user_id = 1, p_age = Some 20, p_gender = Some ''F'',
     p_bio = Some ''hi'', p_photo_file_id = None\<rparr>"

definition bob_profile :: profile_row where
  "bob_profile = \<lparr>p_id = 2, p_user_id = 2, p_age = Some 30, p_gender = Some ''M'',
     p_bio = Some ''yo'', p_photo_file_id = Some ''file1''\<rparr>"

definition db_full :: db where
  "db_full =
     \<lparr>users = [ann_row, bob_row], profiles = [ann_profile, bob_profile],
      likes = [\<lparr>l_id = 1, l_from_user = 1, l_to_user = 2\<rparr>, \<lparr>l_id = 2, l_from_user = 2, l_to_user = 1\<rparr>],
      matches = [\<lparr>m_id = 1, m_a = 2, m_b = 1, m_active = 1\<rparr>],
      reports = [\<lparr>r_id = 1, r_reporter_id = 1, r_reported_id = 2, r_reason = ''spam''\<rparr>,
                 \<lparr>r_id = 2, r_reporter_id = 2, r_reported_id = 1, r_reason = ''rude''\<rparr>]\<rparr>"

definition db_only_bob :: db where
  "db_only_bob =
     \<lparr>users = [bob_row], profiles = [bob_profile], likes = [], matches = [], reports = []\<rparr>"

text \<open>The columns of a user row that the relay reads.\<close>

definition id_columns :: "user_row \<Rightarrow> int \<times> int" where
  "id_columns r = (u_id r, u_tg_id r)"

text \<open>
  The matched pair of \<open>db_two_likes\<close> under other names: every name and username column
  differs, the ids do not; and Ann under another name.
\<close>

definition db_renamed :: db where
  "db_renamed =
     \<lparr>users = [\<lparr>u_id = 1, u_tg_id = 1001, u_username = None, u_name = Some ''Zoe'', u_is_banned = 0\<rparr>,
               \<lparr>u_id = 2, u_tg_id = 1002, u_username = Some ''rob'', u_name = None, u_is_banned = 0\<rparr>],
      profiles = [], likes = [],
      matches = [\<lparr>m_id = 1, m_a = 2, m_b = 1, m_active = 1\<rparr>], reports = []\<rparr>"

definition zoe :: tg_user where
  "zoe = \<lparr>tg_uid = 1001, first_name = Some ''Zoe'', last_name = Some ''Q'', tg_username = None\<rparr>"

text \<open>
  A store for browsing: Bob is banned, has liked Ann and is matched with her; Ann has liked
  nobody.
\<close>

definition db_browse :: db where
  "db_browse =
     \<lparr>users = [ann_row, bob_row\<lparr>u_is_banned := 1\<rparr>], profiles = [ann_profile, bob_profile],
      likes = [\<lparr>l_id = 1, l_from_user = 2, l_to_user = 1\<rparr>],
      matches = [\<lparr>m_id = 1, m_a = 2, m_b = 1, m_active = 1\<rparr>], reports = []\<rparr>"

definition bob_card :: find_row where
  "bob_card = (2, Some 30, Some ''M'', Some ''yo'', Some ''file1'', Some ''bob'', Some ''bob'')"

text \<open>The one-character message SUPERSCRIPT TWO (U+00B2).\<close>

definition superscript_two :: string where
  "superscript_two = [CHR 0xB2]"


section \<open>Auxiliary facts\<close>

lemma find_append:
  "find P (xs @ ys) = (case find P xs of None \<Rightarrow> find P ys | Some x \<Rightarrow> Some x)"
  by (induction xs) auto

lemma display_name_eq:
  "display_name u =
     (if strip (or_empty (first_name u) @ '' '' @ or_empty (last_name u)) = []
      then or_empty (tg_username u)
      else strip (or_empty (first_name u) @ '' '' @ or_empty (last_name u)))"
  by (auto simp: display_name_def Let_def truthy_def or_empty_def split: option.splits)

lemma ensure_user_known:
  "find (\<lambda>r. u_tg_id r = tg_uid u) (users db) = Some row \<Longrightarrow> ensure_user db u = (u_id row, db)"
  by (simp add: ensure_user_def)

lemma ensure_user_new:
  "find (\<lambda>r. u_tg_id r = tg_uid u) (users db) = None \<Longrightarrow>
   ensure_user db u =
     (next_rowid (map u_id (users db)),
      db\<lparr>users := users db @
        [\<lparr>u_id = next_rowid (map u_id (users db)), u_tg_id = tg_uid u,
          u_username = tg_username u, u_name = Some (display_name u), u_is_banned = 0\<rparr>]\<rparr>)"
  by (simp add: ensure_user_def Let_def)

lemma count_users_zero: "(count_users db t = 0) = (find (\<lambda>r. u_tg_id r = t) (users db) = None)"
  by (auto simp: count_users_def find_None_iff filter_empty_conv)

lemma ensure_user_ann:
  "ensure_user init_db ann = (1, init_db\<lparr>users := [ann_row]\<rparr>)"
  by (simp add: ensure_user_def init_db_def ann_def ann_row_def next_rowid_def display_name_def
      or_empty_def strip_def py_isspace_def)

lemma ensure_user_ann_again:
  "ensure_user (init_db\<lparr>users := [ann_row]\<rparr>) ann = (1, init_db\<lparr>users := [ann_row]\<rparr>)"
  by (simp add: ensure_user_def init_db_def ann_def ann_row_def)


lemma has_like_iff: "has_like db x y = (find (\<lambda>l. l_from_user l = x \<and> l_to_user l = y) (likes db) \<noteq> None)"
  by (auto simp: has_like_def find_None_iff list_ex_iff)

lemma has_like_count: "has_like db x y = (count_likes db x y \<noteq> 0)"
  by (auto simp: has_like_def count_likes_def list_ex_iff filter_empty_conv)

lemma count_matches_zero:
  "(find (\<lambda>m. (m_a m = x \<and> m_b m = y) \<or> (m_a m = y \<and> m_b m = x)) (matches db) = None)
     = (count_matches db x y = 0)"
  by (auto simp: count_matches_def find_None_iff filter_empty_conv)

lemma count_matches_sym: "count_matches db x y = count_matches db y x"
  unfolding count_matches_def by (rule arg_cong[where f=length], rule filter_cong) auto

lemma has_like_insert_like:
  "has_like (insert_like db f t) x y = (has_like db x y \<or> (x = f \<and> y = t))"
  by (auto simp: has_like_def insert_like_def list_ex_iff)

lemma count_likes_insert_like:
  "count_likes (insert_like db f t) x y = count_likes db x y + (if x = f \<and> y = t then 1 else 0)"
  by (simp add: count_likes_def insert_like_def)

lemma matches_insert_like: "matches (insert_like db f t) = matches db"
  by (simp add: insert_like_def)

lemma count_matches_insert_like: "count_matches (insert_like db f t) x y = count_matches db x y"
  by (simp add: count_matches_def insert_like_def)

lemma has_like_insert_match: "has_like (insert_match db f t) x y = has_like db x y"
  by (simp add: has_like_def insert_match_def)

lemma count_likes_insert_match: "count_likes (insert_match db f t) x y = count_likes db x y"
  by (simp add: count_likes_def insert_match_def)

lemma count_matches_insert_match:
  "count_matches (insert_match db f t) x y
     = count_matches db x y + (if (x = f \<and> y = t) \<or> (x = t \<and> y = f) then 1 else 0)"
  by (auto simp: count_matches_def insert_match_def)

lemma set_matches_insert_match:
  "set (matches (insert_match db f t)) = insert \<lparr>m_id = next_rowid (map m_id (matches db)), m_a = f, m_b = t, m_active = 1\<rparr> (set (matches db))"
  by (simp add: insert_match_def)

lemma like_action_overflow: "\<not> sqlite_int t \<Longrightarrow> like_action db f t = (db, [Answer], Some OverflowError)"
  by (simp add: like_action_def)

lemma like_action_db:
  "sqlite_int t \<Longrightarrow> fst (like_action db f t) =
     (let db2 = (if has_like db f t then db else insert_like db f t)
      in if has_like db2 t f \<and> count_matches db2 f t = 0 then insert_match db2 f t else db2)"
  by (auto simp: like_action_def Let_def has_like_iff count_matches_zero)

lemma likes_matches_ok_like_action:
  assumes ok: "likes_matches_ok db"
  shows "likes_matches_ok (fst (like_action db f t))"
proof (cases "sqlite_int t")
  case False
  then show ?thesis using ok by (simp add: like_action_overflow)
next
  case True
  define db2 where "db2 = (if has_like db f t then db else insert_like db f t)"
  have cl2: "\<And>x y. count_likes db2 x y \<le> 1"
    using ok unfolding db2_def likes_matches_ok_def
    by (auto simp: count_likes_insert_like has_like_count)
  have hl2: "\<And>x y. has_like db2 x y = (has_like db x y \<or> (x = f \<and> y = t))"
    unfolding db2_def by (auto simp: has_like_insert_like)
  have cm2: "\<And>x y. count_matches db2 x y = count_matches db x y"
    unfolding db2_def by (auto simp: count_matches_insert_like)
  have m2: "matches db2 = matches db"
    unfolding db2_def by (auto simp: matches_insert_like)
  have res: "fst (like_action db f t) =
      (if has_like db2 t f \<and> count_matches db2 f t = 0 then insert_match db2 f t else db2)"
    using like_action_db[OF True] by (simp add: db2_def Let_def)
  from ok have c1: "\<And>x y. count_matches db x y \<le> 1"
    and c2: "\<And>x y. has_like db x y \<Longrightarrow> has_like db y x \<Longrightarrow> count_matches db x y = 1"
    and c3: "\<And>m. m \<in> set (matches db) \<Longrightarrow> has_like db (m_a m) (m_b m) \<and> has_like db (m_b m) (m_a m)"
    unfolding likes_matches_ok_def by auto
  show ?thesis
  proof (cases "has_like db2 t f \<and> count_matches db2 f t = 0")
    case ins: True
    then have z: "count_matches db f t = 0" "count_matches db t f = 0"
      by (simp_all add: cm2 count_matches_sym)
    have "\<And>x y. count_matches (insert_match db2 f t) x y \<le> 1"
      using c1 z by (auto simp: count_matches_insert_match cm2)
    moreover have "\<And>x y. has_like db2 x y \<Longrightarrow> has_like db2 y x \<Longrightarrow> count_matches (insert_match db2 f t) x y = 1"
      using c2 z by (auto simp: count_matches_insert_match cm2 hl2)
    moreover have "\<And>m. m \<in> set (matches (insert_match db2 f t)) \<Longrightarrow> has_like db2 (m_a m) (m_b m) \<and> has_like db2 (m_b m) (m_a m)"
      using c3 ins by (auto simp: set_matches_insert_match m2 hl2)
    moreover have "fst (like_action db f t) = insert_match db2 f t"
      using res ins by simp
    ultimately show ?thesis
      unfolding likes_matches_ok_def using cl2
      by (simp add: has_like_insert_match count_likes_insert_match)
  next
    case noins: False
    have "\<And>x y. has_like db2 x y \<Longrightarrow> has_like db2 y x \<Longrightarrow> count_matches db2 x y = 1"
    proof -
      fix x y assume a: "has_like db2 x y" "has_like db2 y x"
      show "count_matches db2 x y = 1"
      proof (cases "has_like db x y \<and> has_like db y x")
        case True then show ?thesis using c2 by (simp add: cm2)
      next
        case False
        with a have "(x = f \<and> y = t) \<or> (y = f \<and> x = t)" by (auto simp: hl2)
        moreover have "has_like db2 f t" by (simp add: hl2)
        moreover from a calculation have "has_like db2 t f" by auto
        ultimately have "count_matches db2 f t \<noteq> 0" using noins by auto
        with c1[of f t] have "count_matches db f t = 1" by (simp add: cm2)
        with \<open>(x = f \<and> y = t) \<or> (y = f \<and> x = t)\<close> show ?thesis
          by (auto simp: cm2 count_matches_sym)
      qed
    qed
    moreover have "\<And>m. m \<in> set (matches db2) \<Longrightarrow> has_like db2 (m_a m) (m_b m) \<and> has_like db2 (m_b m) (m_a m)"
      using c3 by (auto simp: m2 hl2)
    moreover have "fst (like_action db f t) = db2"
      using res noins by simp
    ultimately show ?thesis
      unfolding likes_matches_ok_def using cl2 c1 by (simp add: cm2)
  qed
qed


lemma find_SomeD: "find P xs = Some x \<Longrightarrow> P x \<and> x \<in> set xs"
  by (induction xs) (auto split: if_splits)

lemma likes_matches_ok_cong:
  "likes db' = likes db \<Longrightarrow> matches db' = matches db \<Longrightarrow> likes_matches_ok db' = likes_matches_ok db"
  by (simp add: likes_matches_ok_def has_like_def count_likes_def count_matches_def)

lemma ensure_user_cases:
  obtains row where "find (\<lambda>r. u_tg_id r = tg_uid u) (users db) = Some row"
      and "ensure_user db u = (u_id row, db)"
  | "find (\<lambda>r. u_tg_id r = tg_uid u) (users db) = None"
      and "ensure_user db u =
        (next_rowid (map u_id (users db)),
         db\<lparr>users := users db @
           [\<lparr>u_id = next_rowid (map u_id (users db)), u_tg_id = tg_uid u,
             u_username = tg_username u, u_name = Some (display_name u), u_is_banned = 0\<rparr>]\<rparr>)"
  by (cases "find (\<lambda>r. u_tg_id r = tg_uid u) (users db)")
    (auto simp: ensure_user_def Let_def)

lemma ensure_user_other_tables:
  "likes (snd (ensure_user db u)) = likes db"
  "matches (snd (ensure_user db u)) = matches db"
  "profiles (snd (ensure_user db u)) = profiles db"
  "reports (snd (ensure_user db u)) = reports db"
  by (cases rule: ensure_user_cases[of u db]; simp)+

lemma next_rowid_fresh: "next_rowid ids \<notin> set ids"
proof (cases ids)
  case Nil
  then show ?thesis by simp
next
  case (Cons x xs)
  have "fold max xs x = Max (set (x # xs))" by (rule Max.set_eq_fold[symmetric])
  then have "next_rowid ids = Max (set ids) + 1" by (simp add: next_rowid_def Cons)
  moreover have "next_rowid ids \<in> set ids \<Longrightarrow> next_rowid ids \<le> Max (set ids)"
    by (rule Max_ge) simp_all
  ultimately show ?thesis by auto
qed

lemma users_ok_ensure_user: "users_ok db \<Longrightarrow> users_ok (snd (ensure_user db u))"
proof (cases rule: ensure_user_cases[of u db])
  case (1 row)
  assume "users_ok db"
  then show ?thesis using 1 by simp
next
  case 2
  assume "users_ok db"
  moreover have "tg_uid u \<notin> u_tg_id ` set (users db)"
    using 2(1) by (auto simp: find_None_iff)
  moreover have "next_rowid (map u_id (users db)) \<notin> u_id ` set (users db)"
    using next_rowid_fresh[of "map u_id (users db)"] by simp
  ultimately show ?thesis using 2(2) by (simp add: users_ok_def)
qed

lemma ensure_user_finds_own_row:
  assumes "users_ok db" "ensure_user db u = (uid, db1)"
  shows "\<exists>row. find (\<lambda>r. u_id r = uid) (users db1) = Some row \<and> u_tg_id row = tg_uid u"
proof -
  have "\<exists>row \<in> set (users db1). u_id row = uid \<and> u_tg_id row = tg_uid u"
  proof (cases rule: ensure_user_cases[of u db])
    case (1 row)
    then show ?thesis using assms(2) by (auto dest: find_SomeD)
  next
    case 2
    then show ?thesis using assms(2) by auto
  qed
  then obtain row where row: "row \<in> set (users db1)" "u_id row = uid" "u_tg_id row = tg_uid u"
    by auto
  have ok1: "users_ok db1" using users_ok_ensure_user[OF assms(1), of u] assms(2) by simp
  obtain r where r: "find (\<lambda>r. u_id r = uid) (users db1) = Some r"
    using row by (cases "find (\<lambda>r. u_id r = uid) (users db1)") (auto simp: find_None_iff)
  then have "r \<in> set (users db1)" "u_id r = uid"
    by (auto dest: find_SomeD)
  with row ok1 have "r = row"
    by (auto simp: users_ok_def distinct_map dest: inj_onD)
  with r row show ?thesis by simp
qed


lemma delete_account_unknown:
  "find (\<lambda>r. u_tg_id r = tg_uid u) (users db) = None \<Longrightarrow>
   delete_account db u = (db, [ReplyText msg_no_account])"
  by (simp add: delete_account_def)

lemma delete_account_known:
  "find (\<lambda>r. u_tg_id r = tg_uid u) (users db) = Some row \<Longrightarrow>
   delete_account db u =
     (db\<lparr>profiles := filter (\<lambda>p. \<not> p_user_id p = u_id row) (profiles db),
         likes := filter (\<lambda>l. \<not> (l_from_user l = u_id row \<or> l_to_user l = u_id row)) (likes db),
         matches := filter (\<lambda>m. \<not> (m_a m = u_id row \<or> m_b m = u_id row)) (matches db),
         reports := filter (\<lambda>r. \<not> (r_reporter_id r = u_id row \<or> r_reported_id r = u_id row)) (reports db),
         users := filter (\<lambda>u. \<not> u_id u = u_id row) (users db)\<rparr>,
      [ReplyText msg_deleted])"
  by (simp add: delete_account_def Let_def)

lemma length_filter_filter: "length (filter P (filter Q xs)) = length (filter (\<lambda>x. Q x \<and> P x) xs)"
  by (induction xs) auto

lemma likes_matches_ok_delete_account:
  assumes ok: "likes_matches_ok db"
  shows "likes_matches_ok (fst (delete_account db u))"
proof (cases "find (\<lambda>r. u_tg_id r = tg_uid u) (users db)")
  case None
  then show ?thesis using ok by (simp add: delete_account_unknown)
next
  case (Some row)
  define uid where "uid = u_id row"
  define db' where "db' = fst (delete_account db u)"
  have l: "likes db' = filter (\<lambda>l. \<not> (l_from_user l = uid \<or> l_to_user l = uid)) (likes db)"
    and m: "matches db' = filter (\<lambda>m. \<not> (m_a m = uid \<or> m_b m = uid)) (matches db)"
    by (simp_all add: db'_def uid_def delete_account_known[OF Some])
  have hl: "\<And>x y. has_like db' x y = (has_like db x y \<and> x \<noteq> uid \<and> y \<noteq> uid)"
    by (auto simp: has_like_def l list_ex_iff)
  have cl: "\<And>x y. count_likes db' x y = (if x = uid \<or> y = uid then 0 else count_likes db x y)"
    unfolding count_likes_def l length_filter_filter
    by (auto intro!: arg_cong[where f=length] filter_cong simp: filter_empty_conv)
  have cm: "\<And>x y. count_matches db' x y = (if x = uid \<or> y = uid then 0 else count_matches db x y)"
    unfolding count_matches_def m length_filter_filter
    by (auto intro!: arg_cong[where f=length] filter_cong simp: filter_empty_conv)
  from ok have c0: "\<And>x y. count_likes db x y \<le> 1"
    and c1: "\<And>x y. count_matches db x y \<le> 1"
    and c2: "\<And>x y. has_like db x y \<Longrightarrow> has_like db y x \<Longrightarrow> count_matches db x y = 1"
    and c3: "\<And>m. m \<in> set (matches db) \<Longrightarrow> has_like db (m_a m) (m_b m) \<and> has_like db (m_b m) (m_a m)"
    unfolding likes_matches_ok_def by auto
  have "\<And>m. m \<in> set (matches db') \<Longrightarrow> has_like db' (m_a m) (m_b m) \<and> has_like db' (m_b m) (m_a m)"
    using c3 by (auto simp: hl m)
  then show ?thesis
    unfolding likes_matches_ok_def db'_def[symmetric] using c0 c1 c2
    by (simp add: hl cl cm)
qed

lemma users_ok_delete_account: "users_ok db \<Longrightarrow> users_ok (fst (delete_account db u))"
  by (cases "find (\<lambda>r. u_tg_id r = tg_uid u) (users db)")
    (simp_all add: delete_account_unknown delete_account_known users_ok_def distinct_map_filter)

lemma like_action_other_tables:
  "users (fst (like_action db f t)) = users db"
  "profiles (fst (like_action db f t)) = profiles db"
  "reports (fst (like_action db f t)) = reports db"
  by (cases "sqlite_int t";
      simp add: like_action_overflow like_action_db Let_def insert_like_def insert_match_def)+

lemma callback_query_handler_db:
  "fst (callback_query_handler db u qdata) = db
   \<or> fst (callback_query_handler db u qdata) = snd (ensure_user db u)
   \<or> (\<exists>t. fst (callback_query_handler db u qdata)
            = fst (like_action (snd (ensure_user db u)) (fst (ensure_user db u)) t))"
  by (auto simp: callback_query_handler_def Let_def split: option.splits prod.splits)

lemma find_handler_db: "fst (find_handler db u) = snd (ensure_user db u)"
  by (auto simp: find_handler_def split: option.splits prod.splits)

lemma relay_messages_db:
  "fst (relay_messages net db u m) = db \<or> fst (relay_messages net db u m) = snd (ensure_user db u)"
  by (auto simp: relay_messages_def Let_def split: option.splits prod.splits)

lemma report_handler_db:
  "fst (report_handler db u args) = db
   \<or> fst (report_handler db u args) = snd (ensure_user db u)
   \<or> (\<exists>i r. fst (report_handler db u args) = insert_report (snd (ensure_user db u)) (fst (ensure_user db u)) i r)"
  by (auto simp: report_handler_def Let_def split: option.splits prod.splits)

lemma insert_report_other_tables:
  "users (insert_report db a b r) = users db"
  "profiles (insert_report db a b r) = profiles db"
  "likes (insert_report db a b r) = likes db"
  "matches (insert_report db a b r) = matches db"
  by (simp_all add: insert_report_def)

lemma save_other_tables:
  "likes (replace_profile (update_user_name db n i) i' a g b ph) = likes db"
  "matches (replace_profile (update_user_name db n i) i' a g b ph) = matches db"
  "reports (replace_profile (update_user_name db n i) i' a g b ph) = reports db"
  by (simp_all add: replace_profile_def update_user_name_def)

lemma users_ok_save:
  "users_ok (replace_profile (update_user_name db n i) i' a g b ph) = users_ok db"
  by (simp add: replace_profile_def update_user_name_def users_ok_def comp_def if_distrib cong: if_cong)


lemma likes_matches_ok_ensure_user:
  "likes_matches_ok (snd (ensure_user db u)) = likes_matches_ok db"
  by (rule likes_matches_ok_cong) (simp_all add: ensure_user_other_tables)

lemma likes_matches_ok_callback:
  assumes "likes_matches_ok db"
  shows "likes_matches_ok (fst (callback_query_handler db u qdata))"
proof -
  have "likes_matches_ok (snd (ensure_user db u))"
    using assms by (simp add: likes_matches_ok_ensure_user)
  then have "\<And>t. likes_matches_ok (fst (like_action (snd (ensure_user db u)) (fst (ensure_user db u)) t))"
    by (rule likes_matches_ok_like_action)
  then show ?thesis
    using callback_query_handler_db[of db u qdata] assms
    by (auto simp: likes_matches_ok_ensure_user)
qed

lemma likes_matches_ok_report:
  assumes "likes_matches_ok db"
  shows "likes_matches_ok (fst (report_handler db u args))"
proof -
  have "\<And>i r. likes_matches_ok (insert_report (snd (ensure_user db u)) (fst (ensure_user db u)) i r)"
    using assms
    by (subst likes_matches_ok_cong[where db="snd (ensure_user db u)"])
      (simp_all add: insert_report_other_tables likes_matches_ok_ensure_user)
  then show ?thesis
    using report_handler_db[of db u args] assms
    by (auto simp: likes_matches_ok_ensure_user)
qed

lemma likes_matches_ok_save:
  "likes_matches_ok (replace_profile (update_user_name db n i) i' a g b ph) = likes_matches_ok db"
  by (rule likes_matches_ok_cong) (simp_all add: save_other_tables)

lemma profile_photo_db:
  "profile_photo db ud u photo = Inr (db', acts, st, ud') \<Longrightarrow>
   db' = replace_profile (update_user_name (snd (ensure_user db u)) (ud_name ud) (fst (ensure_user db u)))
           (fst (ensure_user db u)) (ud_age ud) (ud_gender ud) (ud_bio ud) (Some (last photo))
   \<and> ud' = empty_user_data"
  by (auto simp: profile_photo_def Let_def split: if_splits prod.splits)

lemma skip_photo_db:
  "skip_photo db ud u = (db', acts, st, ud') \<Longrightarrow>
   db' = replace_profile (update_user_name (snd (ensure_user db u)) (ud_name ud) (fst (ensure_user db u)))
           (fst (ensure_user db u)) (ud_age ud) (ud_gender ud) (ud_bio ud) None
   \<and> ud' = empty_user_data"
  by (auto simp: skip_photo_def Let_def split: prod.splits)

lemma likes_matches_ok_handle:
  assumes "likes_matches_ok (sys_db s)"
  shows "likes_matches_ok (sys_db (handle net s e))"
proof (cases e)
  case (Pair u ev)
  show ?thesis
  proof (cases ev)
    case (EvProfilePhoto photo)
    then show ?thesis using assms Pair
      by (auto simp: set_user_data_def likes_matches_ok_save likes_matches_ok_ensure_user
          split: sum.splits dest!: profile_photo_db)
  next
    case EvSkipPhoto
    then show ?thesis using assms Pair
      by (auto simp: set_user_data_def likes_matches_ok_save likes_matches_ok_ensure_user
          split: prod.splits dest!: skip_photo_db)
  next
    case (EvRelay m)
    then show ?thesis using assms Pair relay_messages_db[of net "sys_db s" u m]
      by (auto simp: likes_matches_ok_ensure_user)
  qed (use assms Pair in \<open>auto simp: set_user_data_def find_handler_db likes_matches_ok_ensure_user
        likes_matches_ok_delete_account likes_matches_ok_callback likes_matches_ok_report
        split: sum.splits prod.splits\<close>)
qed

lemma users_ok_handle:
  assumes "users_ok (sys_db s)"
  shows "users_ok (sys_db (handle net s e))"
proof (cases e)
  case (Pair u ev)
  have eu: "users_ok (snd (ensure_user (sys_db s) u))"
    using assms by (rule users_ok_ensure_user)
  show ?thesis
  proof (cases ev)
    case (EvProfilePhoto photo)
    then show ?thesis using assms Pair eu
      by (auto simp: set_user_data_def users_ok_save split: sum.splits dest!: profile_photo_db)
  next
    case EvSkipPhoto
    then show ?thesis using assms Pair eu
      by (auto simp: set_user_data_def users_ok_save split: prod.splits dest!: skip_photo_db)
  next
    case (EvRelay m)
    then show ?thesis using assms Pair eu relay_messages_db[of net "sys_db s" u m]
      by auto
  next
    case (EvCallback qdata)
    then show ?thesis using assms Pair eu callback_query_handler_db[of "sys_db s" u qdata]
      by (auto simp: users_ok_def like_action_other_tables)
  next
    case (EvReport args)
    then show ?thesis using assms Pair eu report_handler_db[of "sys_db s" u args]
      by (auto simp: users_ok_def insert_report_other_tables)
  qed (use assms Pair eu in \<open>auto simp: set_user_data_def find_handler_db users_ok_delete_account
        split: sum.splits prod.splits\<close>)
qed


lemma profiles_callback: "profiles (fst (callback_query_handler db u qdata)) = profiles db"
  using callback_query_handler_db[of db u qdata]
  by (auto simp: ensure_user_other_tables like_action_other_tables)

lemma profiles_find: "profiles (fst (find_handler db u)) = profiles db"
  by (simp add: find_handler_db ensure_user_other_tables)

lemma profiles_relay: "profiles (fst (relay_messages net db u m)) = profiles db"
  using relay_messages_db[of net db u m] by (auto simp: ensure_user_other_tables)

lemma profiles_report: "profiles (fst (report_handler db u args)) = profiles db"
  using report_handler_db[of db u args]
  by (auto simp: ensure_user_other_tables insert_report_other_tables)

lemma set_profiles_delete: "set (profiles (fst (delete_account db u))) \<subseteq> set (profiles db)"
  by (cases "find (\<lambda>r. u_tg_id r = tg_uid u) (users db)")
    (auto simp: delete_account_unknown delete_account_known)

lemma set_profiles_save:
  "p \<in> set (profiles (replace_profile (update_user_name db n i) i' a g b ph)) \<Longrightarrow>
   p \<in> set (profiles db) \<or> p_age p = a"
  by (auto simp: replace_profile_def update_user_name_def)

lemma ages_handle:
  assumes p: "\<forall>p \<in> set (profiles (sys_db s)). age_ok (p_age p)"
    and d: "\<forall>k. age_ok (ud_age (sys_user_data s k))"
  shows "(\<forall>p \<in> set (profiles (sys_db (handle net s e))). age_ok (p_age p))
       \<and> (\<forall>k. age_ok (ud_age (sys_user_data (handle net s e) k)))"
proof (cases e)
  case (Pair u ev)
  have e0: "age_ok (ud_age empty_user_data)" by (simp add: empty_user_data_def age_ok_def)
  show ?thesis
  proof (cases ev)
    case (EvProfileName tx)
    then show ?thesis using p d Pair
      by (auto simp: set_user_data_def profile_name_def Let_def)
  next
    case (EvProfileAge tx)
    then show ?thesis using p d Pair
      by (auto simp: set_user_data_def profile_age_def Let_def age_ok_def
          split: sum.splits option.splits if_splits)
  next
    case (EvProfileGender tx)
    then show ?thesis using p d Pair
      by (auto simp: set_user_data_def profile_gender_def)
  next
    case (EvProfileBio tx)
    then show ?thesis using p d Pair
      by (auto simp: set_user_data_def profile_bio_def)
  next
    case (EvProfilePhoto photo)
    show ?thesis
    proof (cases "profile_photo (sys_db s) (sys_user_data s (tg_uid u)) u photo")
      case (Inl err)
      then show ?thesis using p d Pair EvProfilePhoto by simp
    next
      case (Inr r)
      obtain db' acts st ud' where r: "r = (db', acts, st, ud')" by (cases r) auto
      note pd = profile_photo_db[OF Inr[unfolded r]]
      have "\<forall>q \<in> set (profiles db'). age_ok (p_age q)"
        using p d pd set_profiles_save by (fastforce simp: ensure_user_other_tables)
      then show ?thesis using d Pair EvProfilePhoto Inr r pd e0
        by (auto simp: set_user_data_def)
    qed
  next
    case EvSkipPhoto
    obtain db' acts st ud' where r: "skip_photo (sys_db s) (sys_user_data s (tg_uid u)) u = (db', acts, st, ud')"
      by (cases "skip_photo (sys_db s) (sys_user_data s (tg_uid u)) u") auto
    note pd = skip_photo_db[OF r]
    have "\<forall>q \<in> set (profiles db'). age_ok (p_age q)"
      using p d pd set_profiles_save by (fastforce simp: ensure_user_other_tables)
    then show ?thesis using d Pair EvSkipPhoto r pd e0
      by (auto simp: set_user_data_def)
  next
    case EvDeleteAccount
    then show ?thesis using p d Pair set_profiles_delete[of "sys_db s" u] by auto
  qed (use p d Pair in \<open>auto simp: profiles_callback profiles_find profiles_relay profiles_report\<close>)
qed

lemma sys_ok_init: "sys_ok init_system"
  by (simp add: sys_ok_def init_system_def init_db_def likes_matches_ok_def users_ok_def
      has_like_def count_likes_def count_matches_def empty_user_data_def age_ok_def)

lemma sys_ok_handle: "sys_ok s \<Longrightarrow> sys_ok (handle net s e)"
  unfolding sys_ok_def
  using likes_matches_ok_handle[of s net e] users_ok_handle[of s net e] ages_handle[of s net e]
  by blast

lemma sys_ok_foldl: "sys_ok s \<Longrightarrow> sys_ok (foldl (handle net) s evs)"
  by (induction evs arbitrary: s) (simp_all add: sys_ok_handle)

lemma sys_ok_run: "sys_ok (run net evs)"
  unfolding run_def by (rule sys_ok_foldl[OF sys_ok_init])

subsection \<open>The like press\<close>

lemma ensure_user_again:
  assumes "ensure_user db u = (f, db0)" "users db' = users db0"
  shows "ensure_user db' u = (f, db')"
proof -
  have "\<exists>row. find (\<lambda>r. u_tg_id r = tg_uid u) (users db0) = Some row \<and> u_id row = f"
  proof (cases rule: ensure_user_cases[of u db])
    case (1 row)
    then show ?thesis using assms(1) by auto
  next
    case 2
    then show ?thesis using assms(1) by (auto simp: find_append)
  qed
  then show ?thesis using assms(2) by (auto simp: ensure_user_def)
qed

lemma like_action_likes:
  "sqlite_int t \<Longrightarrow> likes (fst (like_action db f t)) =
     (if has_like db f t then likes db
      else likes db @ [\<lparr>l_id = next_rowid (map l_id (likes db)), l_from_user = f, l_to_user = t\<rparr>])"
  by (simp add: like_action_db Let_def insert_like_def insert_match_def)

lemma like_action_reply:
  "sqlite_int t \<Longrightarrow>
     snd (snd (like_action db f t)) = None
     \<and> (take 2 (fst (snd (like_action db f t))) = [Answer, EditMessageText msg_liked]
        \<or> take 2 (fst (snd (like_action db f t))) = [Answer, EditMessageText msg_match])"
  by (simp add: like_action_def Let_def)

lemma callback_like:
  assumes "parse_callback (or_empty qdata) = Some (''like'', t)" "ensure_user db u = (f, db0)"
  shows "callback_query_handler db u qdata = like_action db0 f t"
  using assms by (simp add: callback_query_handler_def Let_def)

lemma like_twice:
  assumes p: "parse_callback (or_empty qdata) = Some (''like'', t)" and t: "sqlite_int t"
    and e: "ensure_user db u = (f, db0)"
    and c1: "callback_query_handler db u qdata = (db1, acts1, err1)"
    and c2: "callback_query_handler db1 u qdata = (db2, acts2, err2)"
  shows "count_likes db1 f t = (if count_likes db f t = 0 then 1 else count_likes db f t)
    \<and> likes db2 = likes db1 \<and> count_likes db2 f t = count_likes db1 f t
    \<and> err1 = None \<and> err2 = None
    \<and> (take 2 acts2 = [Answer, EditMessageText msg_liked]
       \<or> take 2 acts2 = [Answer, EditMessageText msg_match])"
proof -
  have l0: "likes db0 = likes db" using ensure_user_other_tables(1)[of db u] e by simp
  have r1: "like_action db0 f t = (db1, acts1, err1)" using callback_like[OF p e] c1 by simp
  then have db1: "db1 = fst (like_action db0 f t)" by simp
  have l1: "likes db1 = (if has_like db f t then likes db
      else likes db @ [\<lparr>l_id = next_rowid (map l_id (likes db)), l_from_user = f, l_to_user = t\<rparr>])"
    unfolding db1 like_action_likes[OF t] by (simp add: l0 has_like_def)
  have n1: "count_likes db1 f t = (if count_likes db f t = 0 then 1 else count_likes db f t)"
    using l1 by (auto simp: has_like_count count_likes_def)
  then have h1: "has_like db1 f t" by (simp add: has_like_count)
  have "users db1 = users db0" unfolding db1 by (rule like_action_other_tables)
  from ensure_user_again[OF e this] have e1: "ensure_user db1 u = (f, db1)" .
  have r2: "like_action db1 f t = (db2, acts2, err2)" using callback_like[OF p e1] c2 by simp
  then have "likes db2 = likes (fst (like_action db1 f t))" by simp
  then have l2: "likes db2 = likes db1" using h1 by (simp add: like_action_likes[OF t])
  have "err1 = None" using like_action_reply[OF t, of db0 f] r1 by simp
  moreover have "err2 = None \<and> (take 2 acts2 = [Answer, EditMessageText msg_liked]
       \<or> take 2 acts2 = [Answer, EditMessageText msg_match])"
    using like_action_reply[OF t, of db1 f] r2 by simp
  ultimately show ?thesis using n1 l2 by (simp add: count_likes_def)
qed

subsection \<open>Printing and reading integers\<close>


lemma digit_char_props:
  assumes "d < 10"
  shows "is_decimal (digit_char d)" "decimal_value (digit_char d) = d"
    "digit_char d \<noteq> CHR ''_''" "digit_char d \<noteq> CHR ''-''" "digit_char d \<noteq> CHR ''+''"
    "\<not> int_isspace (digit_char d)"
proof -
  from assms have "d \<in> {0, 1, 2, 3, 4, 5, 6, 7, 8, 9}" by auto
  then show "is_decimal (digit_char d)" "decimal_value (digit_char d) = d"
    "digit_char d \<noteq> CHR ''_''" "digit_char d \<noteq> CHR ''-''" "digit_char d \<noteq> CHR ''+''"
    "\<not> int_isspace (digit_char d)"
    by (auto simp: digit_char_def is_decimal_def decimal_value_def int_isspace_def)
qed

lemma nat_digits_shape: "\<exists>d ds. nat_digits n = digit_char d # ds \<and> d < 10"
proof (induction n rule: nat_digits.induct)
  case (1 n)
  show ?case
  proof (cases "n < 10")
    case True
    then show ?thesis by auto
  next
    case False
    with 1 obtain d ds where "nat_digits (n div 10) = digit_char d # ds" "d < 10" by blast
    then show ?thesis using False by (subst nat_digits.simps) auto
  qed
qed

lemma nat_digits_last: "\<exists>d. last (nat_digits n) = digit_char d \<and> d < 10"
  by (subst nat_digits.simps) auto

lemma scan_nat_digits:
  "scan_digits False acc (nat_digits n @ rest)
     = scan_digits False (acc * 10 ^ length (nat_digits n) + n) rest"
proof (induction n arbitrary: acc rest rule: nat_digits.induct)
  case (1 n)
  show ?case
  proof (cases "n < 10")
    case True
    then show ?thesis using digit_char_props[of n] by simp
  next
    case False
    have m: "n mod 10 < 10" by simp
    have "scan_digits False acc (nat_digits n @ rest)
        = scan_digits False acc (nat_digits (n div 10) @ (digit_char (n mod 10) # rest))"
      using False by (subst nat_digits.simps) simp
    also have "\<dots> = scan_digits False (acc * 10 ^ length (nat_digits (n div 10)) + n div 10)
        (digit_char (n mod 10) # rest)"
      using 1[OF False] by simp
    also have "\<dots> = scan_digits False
        ((acc * 10 ^ length (nat_digits (n div 10)) + n div 10) * 10 + n mod 10) rest"
      using digit_char_props[OF m] by simp
    also have "(acc * 10 ^ length (nat_digits (n div 10)) + n div 10) * 10 + n mod 10
        = acc * 10 ^ length (nat_digits n) + n"
      using False by (subst (2) nat_digits.simps) (simp add: algebra_simps)
    finally show ?thesis .
  qed
qed

lemma int_body_nat_digits: "int_body (nat_digits n) = Some n"
proof -
  obtain d ds where s: "nat_digits n = digit_char d # ds" "d < 10"
    using nat_digits_shape by blast
  have "scan_digits False 0 (nat_digits n) = Some n"
    using scan_nat_digits[of 0 n "[]"] by simp
  then show ?thesis using s digit_char_props[OF s(2)] by (simp add: int_body_def)
qed

lemma int_strip_id:
  assumes "s \<noteq> []" "\<not> int_isspace (hd s)" "\<not> int_isspace (last s)"
  shows "int_strip s = s"
proof -
  have "dropWhile int_isspace s = s" using assms by (cases s) auto
  moreover have "dropWhile int_isspace (rev s) = rev s"
    using assms by (cases "rev s") (auto simp: hd_rev[symmetric] simp del: hd_rev)
  ultimately show ?thesis by (simp add: int_strip_def)
qed

lemma py_int_py_str: "py_int (py_str i) = Some i"
proof -
  obtain d ds where s: "nat_digits (nat \<bar>i\<bar>) = digit_char d # ds" "d < 10"
    using nat_digits_shape by blast
  obtain e where l: "last (nat_digits (nat \<bar>i\<bar>)) = digit_char e" "e < 10"
    using nat_digits_last by blast
  have sp: "\<not> int_isspace (CHR ''-'')" by (simp add: int_isspace_def)
  show ?thesis
  proof (cases "i < 0")
    case True
    then have p: "py_str i = CHR ''-'' # nat_digits (nat \<bar>i\<bar>)" by (simp add: py_str_def)
    have "int_strip (py_str i) = py_str i"
      using l s sp digit_char_props[OF l(2)] by (intro int_strip_id) (auto simp: p)
    then show ?thesis using True int_body_nat_digits[of "nat \<bar>i\<bar>"]
      by (simp add: py_int_def p)
  next
    case False
    then have p: "py_str i = nat_digits (nat \<bar>i\<bar>)" by (simp add: py_str_def)
    have "int_strip (py_str i) = py_str i"
      using l s digit_char_props[OF l(2)] digit_char_props[OF s(2)]
      by (intro int_strip_id) (auto simp: p)
    then show ?thesis using False int_body_nat_digits[of "nat \<bar>i\<bar>"] s digit_char_props[OF s(2)]
      by (simp add: py_int_def p)
  qed
qed

lemma parse_callback_like: "parse_callback (''like:'' @ py_str i) = Some (''like'', i)"
  by (simp add: parse_callback_def split_colon_def py_int_py_str)

lemma parse_callback_skip: "parse_callback (''skip:'' @ py_str i) = Some (''skip'', i)"
  by (simp add: parse_callback_def split_colon_def py_int_py_str)

subsection \<open>Evaluation of the examples\<close>

lemmas eval_defs = parse_callback_def split_colon_def py_int_def int_strip_def int_isspace_def
  int_body_def is_decimal_def decimal_value_def or_empty_def sqlite_int_def
  ensure_user_def next_rowid_def display_name_def strip_def py_isspace_def truthy_def
  insert_like_def insert_match_def

lemma parse_like_2: "parse_callback ''like:2'' = Some (''like'', 2)"
  by (simp add: eval_defs)

lemma parse_like_1: "parse_callback ''like:1'' = Some (''like'', 1)"
  by (simp add: eval_defs)

lemma run_two_likes: "sys_db (run net_up two_likes) = db_two_likes"
  by (simp add: run_def two_likes_def init_system_def init_db_def callback_query_handler_def
      parse_like_1 parse_like_2 like_action_def Let_def ann_def bob_def ann_row_def bob_row_def
      db_two_likes_def eval_defs)

lemma run_nil: "sys_db (run net []) = init_db"
  by (simp add: run_def init_system_def)

lemma ensure_user_init_ann: "ensure_user init_db ann = (1, db_ann)"
  by (simp add: init_db_def ann_def ann_row_def db_ann_def eval_defs)

lemma callback_ann_like_2:
  "callback_query_handler init_db ann (Some ''like:2'')
     = (db_ann_likes, [Answer, EditMessageText msg_liked], None)"
  by (simp add: callback_query_handler_def parse_like_2 like_action_def Let_def init_db_def
      ann_def ann_row_def db_ann_likes_def eval_defs)

lemma callback_ann_like_2_again:
  "callback_query_handler db_ann_likes ann (Some ''like:2'')
     = (db_ann_likes, [Answer, EditMessageText msg_liked], None)"
  by (simp add: callback_query_handler_def parse_like_2 like_action_def Let_def
      ann_def ann_row_def db_ann_likes_def eval_defs)

lemma like_overflow:
  "callback_query_handler db_ann ann (Some ''like:9223372036854775808'')
     = (db_ann, [Answer], Some OverflowError)"
  by (simp add: callback_query_handler_def like_action_def Let_def
      ann_def ann_row_def db_ann_def eval_defs)

lemma py_str_1: "py_str 1 = ''1''"
  by (simp add: py_str_def digit_char_def)

lemma count_users_after_ensure:
  "(count_users (snd (ensure_user db u)) target = 0)
     = (count_users db target = 0 \<and> target \<noteq> tg_uid u)"
proof (cases rule: ensure_user_cases[of u db])
  case (1 row)
  then have "count_users db (tg_uid u) \<noteq> 0" by (simp add: count_users_zero)
  then show ?thesis using 1 by auto
next
  case 2
  then have "count_users db (tg_uid u) = 0" by (simp add: count_users_zero)
  then show ?thesis using 2 by (auto simp: count_users_def)
qed

lemma py_int_555: "py_int ''555'' = Some 555"
  by (simp add: eval_defs)

lemma delete_account_again:
  assumes "distinct (map u_tg_id (users db))"
  shows "delete_account (fst (delete_account db u)) u
    = (fst (delete_account db u), [ReplyText msg_no_account])"
proof (cases "find (\<lambda>r. u_tg_id r = tg_uid u) (users db)")
  case None
  then show ?thesis by (simp add: delete_account_unknown)
next
  case (Some row)
  have row: "row \<in> set (users db)" "u_tg_id row = tg_uid u"
    using find_SomeD[OF Some] by auto
  have "\<And>y. y \<in> set (users db) \<Longrightarrow> u_tg_id y = tg_uid u \<Longrightarrow> u_id y = u_id row"
  proof -
    fix y assume "y \<in> set (users db)" "u_tg_id y = tg_uid u"
    moreover have "inj_on u_tg_id (set (users db))" using assms by (simp add: distinct_map)
    ultimately have "y = row" using row by (auto simp: inj_on_def)
    then show "u_id y = u_id row" by simp
  qed
  then have "find (\<lambda>r. u_tg_id r = tg_uid u) (users (fst (delete_account db u))) = None"
    by (auto simp: delete_account_known[OF Some] find_None_iff)
  then show ?thesis by (rule delete_account_unknown)
qed

lemma find_ann_db_full: "find (\<lambda>r. u_tg_id r = tg_uid ann) (users db_full) = Some ann_row"
  by (simp add: db_full_def ann_def ann_row_def)

lemma delete_ann: "delete_account db_full ann = (db_only_bob, [ReplyText msg_deleted])"
  by (simp add: delete_account_def db_full_def db_only_bob_def ann_def ann_row_def bob_row_def
      ann_profile_def bob_profile_def)

subsection \<open>The relay\<close>

lemma has_active_match_iff:
  "has_active_match db sid
     = (find (\<lambda>m. (m_a m = sid \<or> m_b m = sid) \<and> m_active m = 1) (matches db) \<noteq> None)"
  by (auto simp: has_active_match_def find_None_iff list_ex_iff)

lemma relay_actions:
  assumes "ensure_user db u = (sid, db1)"
  shows "snd (relay_messages net db u m) =
    (case m of
       None \<Rightarrow> []
     | Some msg \<Rightarrow>
         (case msg_text msg of
            None \<Rightarrow> [ReplyText msg_only_text]
          | Some tx \<Rightarrow>
              (case find (\<lambda>m. (m_a m = sid \<or> m_b m = sid) \<and> m_active m = 1) (matches db1) of
                 None \<Rightarrow> [ReplyText msg_no_active_match]
               | Some mt \<Rightarrow>
                   (case map_option u_tg_id
                           (find (\<lambda>r. u_id r = (if m_a mt = sid then m_b mt else m_a mt)) (users db1)) of
                      None \<Rightarrow> [ReplyText msg_no_contact]
                    | Some other_tg \<Rightarrow>
                        [SendMessage other_tg (''Anonymous#'' @ py_str sid @ '':'' @ newline @ tx),
                         ReplyText (if net other_tg (''Anonymous#'' @ py_str sid @ '':'' @ newline @ tx)
                                    then msg_sent else msg_send_failed)]))))"
  using assms by (simp add: relay_messages_def Let_def split: option.splits)

lemma find_by_tg_id_columns:
  "map_option u_id (find (\<lambda>r. u_tg_id r = t) xs)
     = map_option fst (find (\<lambda>p. snd p = t) (map id_columns xs))"
  by (induction xs) (auto simp: id_columns_def)

lemma find_by_id_id_columns:
  "map_option u_tg_id (find (\<lambda>r. u_id r = i) xs)
     = map_option snd (find (\<lambda>p. fst p = i) (map id_columns xs))"
  by (induction xs) (auto simp: id_columns_def)

lemma map_u_id_id_columns: "map u_id xs = map fst (map id_columns xs)"
  by (simp add: id_columns_def comp_def)

lemma ensure_user_id_columns:
  assumes "map id_columns (users db') = map id_columns (users db)" "tg_uid u' = tg_uid u"
  shows "fst (ensure_user db' u') = fst (ensure_user db u)
    \<and> map id_columns (users (snd (ensure_user db' u'))) = map id_columns (users (snd (ensure_user db u)))"
proof -
  have f: "map_option u_id (find (\<lambda>r. u_tg_id r = tg_uid u) (users db'))
      = map_option u_id (find (\<lambda>r. u_tg_id r = tg_uid u) (users db))"
    by (simp add: find_by_tg_id_columns assms(1))
  have n: "next_rowid (map u_id (users db')) = next_rowid (map u_id (users db))"
    by (simp add: map_u_id_id_columns assms(1))
  show ?thesis
  proof (cases "find (\<lambda>r. u_tg_id r = tg_uid u) (users db)")
    case None
    with f have "find (\<lambda>r. u_tg_id r = tg_uid u) (users db') = None" by simp
    with None show ?thesis using assms n
      by (simp add: ensure_user_def Let_def id_columns_def)
  next
    case (Some row)
    with f obtain row' where "find (\<lambda>r. u_tg_id r = tg_uid u) (users db') = Some row'"
      "u_id row' = u_id row" by auto
    with Some show ?thesis using assms by (simp add: ensure_user_def)
  qed
qed

lemma ensure_user_ann_two_likes: "ensure_user db_two_likes ann = (1, db_two_likes)"
  by (simp add: ensure_user_def db_two_likes_def ann_def ann_row_def)

lemma ensure_user_ann_db_ann: "ensure_user db_ann ann = (1, db_ann)"
  by (simp add: ensure_user_def db_ann_def ann_def ann_row_def)

lemma relay_ann_two_likes:
  "relay_messages net_up db_two_likes ann (Some (Message (Some ''hi'')))
     = (db_two_likes, [SendMessage 1002 (''Anonymous#1:'' @ newline @ ''hi''), ReplyText msg_sent])"
  by (simp add: relay_messages_def ensure_user_def Let_def py_str_1 net_up_def
      db_two_likes_def ann_def ann_row_def bob_row_def)

subsection \<open>Discovery\<close>

lemma liked_by_iff: "(y \<in> set (liked_by db uid)) = has_like db uid y"
  by (force simp: liked_by_def has_like_def list_ex_iff)

lemma set_find_rows:
  "set (find_rows db uid) =
     {(p, r). p \<in> set (profiles db) \<and> r \<in> set (users db) \<and> p_user_id p = u_id r
        \<and> p_user_id p \<noteq> uid \<and> \<not> has_like db uid (p_user_id p)}"
  by (auto simp: find_rows_def liked_by_iff)

lemma find_query_None: "(find_query db uid = None) = (find_rows db uid = [])"
  by (simp add: find_query_def split: list.splits)

lemma find_query_Some:
  "find_query db uid = Some row \<Longrightarrow>
   \<exists>pu \<in> set (find_rows db uid). row = select_columns pu"
  by (auto simp: find_query_def split: list.splits)

lemma find_handler_none:
  "ensure_user db u = (uid, db1) \<Longrightarrow> find_query db1 uid = None \<Longrightarrow>
   find_handler db u = (db1, [ReplyText msg_no_profiles])"
  by (simp add: find_handler_def)

lemma find_handler_some:
  "ensure_user db u = (uid, db1) \<Longrightarrow> find_query db1 uid = Some row \<Longrightarrow>
   \<exists>photo card. find_handler db u = (db1, [ReplyPhoto photo card (keyboard (fst row))])
     \<or> find_handler db u = (db1, [ReplyTextKeyboard card (keyboard (fst row))])"
  by (cases row) (auto simp: find_handler_def)

lemma ensure_user_ann_browse: "ensure_user db_browse ann = (1, db_browse)"
  by (simp add: ensure_user_def db_browse_def ann_def ann_row_def)

lemma ensure_user_ann_full: "ensure_user db_full ann = (1, db_full)"
  by (simp add: ensure_user_def db_full_def ann_def ann_row_def)

lemma find_query_browse: "find_query db_browse 1 = Some bob_card"
  by (simp add: find_query_def find_rows_def liked_by_def select_columns_def db_browse_def
      ann_row_def bob_row_def ann_profile_def bob_profile_def bob_card_def)

lemma find_handler_browse:
  "find_handler db_browse ann = (db_browse, [ReplyPhoto ''file1'' (profile_text bob_card) (keyboard 2)])"
  by (simp add: find_handler_def ensure_user_ann_browse find_query_browse)
    (simp add: bob_card_def truthy_def)

subsection \<open>The age step of the profile builder\<close>

lemma scan_digits_decimal:
  "list_all is_decimal t \<Longrightarrow> \<exists>n. scan_digits False acc t = Some n"
proof (induction t arbitrary: acc)
  case Nil
  then show ?case by simp
next
  case (Cons c cs)
  then have "is_decimal c" "list_all is_decimal cs" by simp_all
  moreover from \<open>is_decimal c\<close> have "c \<noteq> CHR ''_''" by (auto simp: is_decimal_def)
  ultimately show ?case using Cons.IH by simp
qed

lemma scan_digits_not_decimal:
  "\<not> list_all is_decimal t \<Longrightarrow> list_all isdigit_char t \<Longrightarrow> scan_digits b acc t = None"
proof (induction t arbitrary: b acc)
  case Nil
  then show ?case by simp
next
  case (Cons c cs)
  have "c \<noteq> CHR ''_''" using Cons.prems(2) by (auto simp: isdigit_char_def is_decimal_def)
  then show ?case using Cons by (cases "is_decimal c") auto
qed

lemma isdigit_char_plain:
  "isdigit_char c \<Longrightarrow> \<not> int_isspace c \<and> c \<noteq> CHR ''-'' \<and> c \<noteq> CHR ''+'' \<and> c \<noteq> CHR ''_''"
  by (auto simp: isdigit_char_def is_decimal_def int_isspace_def)

lemma py_int_isdigit:
  assumes "isdigit t"
  shows "py_int t = map_option int (scan_digits False 0 t)"
proof -
  from assms obtain c cs where t: "t = c # cs" by (cases t) (auto simp: isdigit_def)
  have "isdigit_char (hd t)" "isdigit_char (last t)"
    using assms by (auto simp: isdigit_def list_all_iff t)
  then have "int_strip t = t"
    using isdigit_char_plain by (intro int_strip_id) (auto simp: t)
  moreover have "isdigit_char c" using assms by (simp add: isdigit_def t)
  ultimately show ?thesis using isdigit_char_plain[of c] by (simp add: py_int_def int_body_def t)
qed

lemma py_int_isdigit_None:
  "isdigit t \<Longrightarrow> (py_int t = None) = (\<not> list_all is_decimal t)"
  using scan_digits_decimal[of t 0] scan_digits_not_decimal[of t False 0]
  by (auto simp: py_int_isdigit isdigit_def)

lemma py_int_isdigit_nonneg: "isdigit t \<Longrightarrow> py_int t = Some age \<Longrightarrow> 0 \<le> age"
  by (auto simp: py_int_isdigit)

text \<open>The four outcomes of \<open>profile_age\<close>.\<close>

lemma profile_age_reprompt:
  "\<not> isdigit (strip tx) \<Longrightarrow> profile_age ud tx = Inr ([ReplyText msg_age_number], A_AGE, ud)"
  by (simp add: profile_age_def)

lemma profile_age_raises:
  "(profile_age ud tx = Inl ValueError)
     = (isdigit (strip tx) \<and> \<not> list_all is_decimal (strip tx))"
proof (cases "isdigit (strip tx)")
  case False
  then show ?thesis by (simp add: profile_age_def)
next
  case True
  show ?thesis
  proof (cases "py_int (strip tx)")
    case None
    then show ?thesis using True py_int_isdigit_None[OF True] by (simp add: profile_age_def)
  next
    case (Some age)
    then show ?thesis using True py_int_isdigit_None[OF True] by (simp add: profile_age_def)
  qed
qed

lemma profile_age_minor:
  "isdigit (strip tx) \<Longrightarrow> py_int (strip tx) = Some age \<Longrightarrow> age < 18 \<Longrightarrow>
   profile_age ud tx = Inr ([ReplyText msg_must_be_18], END, ud)"
  by (simp add: profile_age_def)

lemma profile_age_adult:
  "isdigit (strip tx) \<Longrightarrow> py_int (strip tx) = Some age \<Longrightarrow> 18 \<le> age \<Longrightarrow>
   profile_age ud tx = Inr ([ReplyText msg_ask_gender], A_GENDER, ud\<lparr>ud_age := Some age\<rparr>)"
  by (simp add: profile_age_def)

lemma profile_age_advances:
  "(\<exists>acts ud'. profile_age ud tx = Inr (acts, A_GENDER, ud'))
     = (\<exists>age. isdigit (strip tx) \<and> py_int (strip tx) = Some age \<and> 18 \<le> age)"
  by (auto simp: profile_age_def Let_def split: option.splits)

text \<open>No run writes a profile row with an age below 18.\<close>

lemma profiles_adult:
  "p \<in> set (profiles (sys_db (run net evs))) \<Longrightarrow> p_age p = Some age \<Longrightarrow> 18 \<le> age"
  using sys_ok_run[of net evs] by (auto simp: sys_ok_def age_ok_def split: option.splits)

subsection \<open>Profiles and their users\<close>

lemma profiles_owned_iff:
  "profiles_owned db = (\<forall>p \<in> set (profiles db). p_user_id p \<in> u_id ` set (users db))"
  by (simp add: profiles_owned_def list_all_iff list_ex_iff image_iff eq_commute)

lemma set_users_ensure_user: "set (users db) \<subseteq> set (users (snd (ensure_user db u)))"
  by (cases rule: ensure_user_cases[of u db]) auto

lemma ensure_user_id_in_users:
  "fst (ensure_user db u) \<in> u_id ` set (users (snd (ensure_user db u)))"
proof (cases rule: ensure_user_cases[of u db])
  case (1 row)
  then show ?thesis using find_SomeD[OF 1(1)] by auto
next
  case 2
  then show ?thesis by simp
qed

lemma profiles_owned_ensure_user:
  "profiles_owned db \<Longrightarrow> profiles_owned (snd (ensure_user db u))"
  using set_users_ensure_user[of db u]
  by (auto simp: profiles_owned_iff ensure_user_other_tables)

lemma profiles_owned_save:
  assumes "profiles_owned db" "i \<in> u_id ` set (users db)"
  shows "profiles_owned (replace_profile (update_user_name db n j) i a g b ph)"
proof -
  have "map u_id (users (update_user_name db n j)) = map u_id (users db)"
    by (simp add: update_user_name_def comp_def if_distrib cong: if_cong)
  then have "set (map u_id (users (update_user_name db n j))) = set (map u_id (users db))"
    by simp
  then have "u_id ` set (users (update_user_name db n j)) = u_id ` set (users db)"
    by (simp only: set_map)
  then show ?thesis using assms
    by (auto simp: profiles_owned_iff replace_profile_def update_user_name_def)
qed

lemma profiles_owned_delete_account:
  assumes "profiles_owned db"
  shows "profiles_owned (fst (delete_account db u))"
proof (cases "find (\<lambda>r. u_tg_id r = tg_uid u) (users db)")
  case None
  then show ?thesis using assms by (simp add: delete_account_unknown)
next
  case (Some row)
  show ?thesis using assms
    by (auto simp: profiles_owned_iff delete_account_known[OF Some])
qed

lemma profiles_owned_handle:
  assumes "profiles_owned (sys_db s)"
  shows "profiles_owned (sys_db (handle net s e))"
proof (cases e)
  case (Pair u ev)
  have eu: "profiles_owned (snd (ensure_user (sys_db s) u))"
    using assms by (rule profiles_owned_ensure_user)
  have sv: "\<And>n a g b ph. profiles_owned (replace_profile
      (update_user_name (snd (ensure_user (sys_db s) u)) n (fst (ensure_user (sys_db s) u)))
      (fst (ensure_user (sys_db s) u)) a g b ph)"
    by (rule profiles_owned_save[OF eu ensure_user_id_in_users])
  show ?thesis
  proof (cases ev)
    case (EvProfilePhoto photo)
    then show ?thesis using assms Pair sv
      by (auto simp: set_user_data_def split: sum.splits dest!: profile_photo_db)
  next
    case EvSkipPhoto
    then show ?thesis using assms Pair sv
      by (auto simp: set_user_data_def split: prod.splits dest!: skip_photo_db)
  next
    case (EvRelay m)
    then show ?thesis using assms Pair eu relay_messages_db[of net "sys_db s" u m]
      by auto
  next
    case (EvCallback qdata)
    then show ?thesis using assms Pair eu callback_query_handler_db[of "sys_db s" u qdata]
      by (auto simp: profiles_owned_def like_action_other_tables)
  next
    case (EvReport args)
    then show ?thesis using assms Pair eu report_handler_db[of "sys_db s" u args]
      by (auto simp: profiles_owned_def insert_report_other_tables)
  qed (use assms Pair eu in \<open>auto simp: set_user_data_def find_handler_db
        profiles_owned_delete_account split: sum.splits prod.splits\<close>)
qed

lemma profiles_owned_foldl:
  "profiles_owned (sys_db s) \<Longrightarrow> profiles_owned (sys_db (foldl (handle net) s evs))"
  by (induction evs arbitrary: s) (simp_all add: profiles_owned_handle)

text \<open>In any state the service reaches, every profile has its user row: the join of the
  /find query drops no profile.\<close>

lemma profiles_have_users:
  "p \<in> set (profiles (sys_db (run net evs))) \<Longrightarrow>
   \<exists>r \<in> set (users (sys_db (run net evs))). u_id r = p_user_id p"
proof -
  have "profiles_owned (sys_db (run net evs))"
    unfolding run_def
    by (rule profiles_owned_foldl) (simp add: init_system_def init_db_def profiles_owned_def)
  then show "p \<in> set (profiles (sys_db (run net evs))) \<Longrightarrow>
      \<exists>r \<in> set (users (sys_db (run net evs))). u_id r = p_user_id p"
    by (simp add: profiles_owned_iff image_iff eq_commute)
qed

section \<open>A mutual like has exactly one match\<close>

text \<open>
  C1. After any run of the service from the empty store, and so after any sequence of
  like presses in any order and with any repetition: when a like row from \<open>x\<close> to \<open>y\<close> and a
  like row from \<open>y\<close> to \<open>x\<close> both exist, exactly one match row holds the unordered pair. The
  handler looks for a match row in both orientations before it inserts one.
\<close>

theorem mutual_like_one_match:
  assumes "has_like (sys_db (run net evs)) x y" and "has_like (sys_db (run net evs)) y x"
  shows "count_matches (sys_db (run net evs)) x y = 1"
  using sys_ok_run[of net evs] assms unfolding sys_ok_def likes_matches_ok_def by blast

theorem mutual_like_one_match_witness:
  "has_like (sys_db (run net_up two_likes)) 1 2 \<and> has_like (sys_db (run net_up two_likes)) 2 1
   \<and> count_matches (sys_db (run net_up two_likes)) 1 2 = 1"
proof -
  have a: "has_like (sys_db (run net_up two_likes)) 1 2"
    by (simp add: run_two_likes db_two_likes_def has_like_def)
  have b: "has_like (sys_db (run net_up two_likes)) 2 1"
    by (simp add: run_two_likes db_two_likes_def has_like_def)
  from mutual_like_one_match[OF a b] a b show ?thesis by simp
qed

section \<open>What /find offers\<close>

text \<open>
  C2. Let \<open>uid\<close> be the internal id of the requester. Every row the query of /find can
  return, and so the one it returns, is a profile of another user whom the requester has
  not liked; the reply then carries the like and skip buttons for that user. When every
  profile is the requester's own or of a user the requester has liked, the reply is the
  "try again later" text; the handler has no failure. A profile of another user, not liked
  by the requester and with its user row, is among the rows of the query whatever the
  banned flag of its owner, the likes of its owner and the matches table are, and then the
  reply is not "try again later". In any state the service reaches every profile has its
  user row (\<open>profiles_have_users\<close>), so the join drops none.
\<close>

theorem find_candidate_scope:
  assumes "ensure_user db u = (uid, db1)"
  shows "(\<forall>pu \<in> set (find_rows db1 uid).
            fst pu \<in> set (profiles db1) \<and> p_user_id (fst pu) \<noteq> uid
            \<and> \<not> has_like db1 uid (p_user_id (fst pu)))
    \<and> (\<forall>row. find_query db1 uid = Some row \<longrightarrow>
          fst row \<noteq> uid \<and> \<not> has_like db1 uid (fst row)
          \<and> (\<exists>photo card. find_handler db u = (db1, [ReplyPhoto photo card (keyboard (fst row))])
                \<or> find_handler db u = (db1, [ReplyTextKeyboard card (keyboard (fst row))])))
    \<and> ((\<forall>p \<in> set (profiles db1). p_user_id p = uid \<or> has_like db1 uid (p_user_id p)) \<longrightarrow>
          find_handler db u = (db1, [ReplyText msg_no_profiles]))
    \<and> (\<forall>p \<in> set (profiles db1). \<forall>r \<in> set (users db1).
          u_id r = p_user_id p \<and> p_user_id p \<noteq> uid \<and> \<not> has_like db1 uid (p_user_id p) \<longrightarrow>
          (p, r) \<in> set (find_rows db1 uid)
          \<and> snd (find_handler db u) \<noteq> [ReplyText msg_no_profiles])"
proof -
  have 1: "\<forall>pu \<in> set (find_rows db1 uid).
            fst pu \<in> set (profiles db1) \<and> p_user_id (fst pu) \<noteq> uid
            \<and> \<not> has_like db1 uid (p_user_id (fst pu))"
    by (auto simp: set_find_rows)
  have 2: "\<forall>row. find_query db1 uid = Some row \<longrightarrow>
          fst row \<noteq> uid \<and> \<not> has_like db1 uid (fst row)
          \<and> (\<exists>photo card. find_handler db u = (db1, [ReplyPhoto photo card (keyboard (fst row))])
                \<or> find_handler db u = (db1, [ReplyTextKeyboard card (keyboard (fst row))]))"
  proof (intro allI impI)
    fix row assume q: "find_query db1 uid = Some row"
    from find_query_Some[OF q] obtain p r where "(p, r) \<in> set (find_rows db1 uid)"
      "row = select_columns (p, r)" by auto
    then have "fst row \<noteq> uid \<and> \<not> has_like db1 uid (fst row)"
      by (auto simp: set_find_rows select_columns_def)
    with find_handler_some[OF assms q] show "fst row \<noteq> uid \<and> \<not> has_like db1 uid (fst row)
          \<and> (\<exists>photo card. find_handler db u = (db1, [ReplyPhoto photo card (keyboard (fst row))])
                \<or> find_handler db u = (db1, [ReplyTextKeyboard card (keyboard (fst row))]))"
      by blast
  qed
  have 3: "(\<forall>p \<in> set (profiles db1). p_user_id p = uid \<or> has_like db1 uid (p_user_id p)) \<longrightarrow>
          find_handler db u = (db1, [ReplyText msg_no_profiles])"
  proof
    assume "\<forall>p \<in> set (profiles db1). p_user_id p = uid \<or> has_like db1 uid (p_user_id p)"
    then have "set (find_rows db1 uid) = {}" by (auto simp: set_find_rows)
    then have "find_query db1 uid = None" by (simp add: find_query_None)
    then show "find_handler db u = (db1, [ReplyText msg_no_profiles])"
      by (rule find_handler_none[OF assms])
  qed
  have 4: "\<forall>p \<in> set (profiles db1). \<forall>r \<in> set (users db1).
          u_id r = p_user_id p \<and> p_user_id p \<noteq> uid \<and> \<not> has_like db1 uid (p_user_id p) \<longrightarrow>
          (p, r) \<in> set (find_rows db1 uid)
          \<and> snd (find_handler db u) \<noteq> [ReplyText msg_no_profiles]"
  proof (intro ballI impI)
    fix p r assume a: "p \<in> set (profiles db1)" "r \<in> set (users db1)"
      "u_id r = p_user_id p \<and> p_user_id p \<noteq> uid \<and> \<not> has_like db1 uid (p_user_id p)"
    then have m: "(p, r) \<in> set (find_rows db1 uid)" by (simp add: set_find_rows)
    then have "find_rows db1 uid \<noteq> []" by auto
    then obtain row where q: "find_query db1 uid = Some row"
      by (cases "find_query db1 uid") (auto simp: find_query_None)
    from find_handler_some[OF assms q] have "snd (find_handler db u) \<noteq> [ReplyText msg_no_profiles]"
      by auto
    with m show "(p, r) \<in> set (find_rows db1 uid)
          \<and> snd (find_handler db u) \<noteq> [ReplyText msg_no_profiles]" by simp
  qed
  from 1 2 3 4 show ?thesis by blast
qed

theorem find_candidate_scope_witness:
  "ensure_user db_browse ann = (1, db_browse)
   \<and> find_query db_browse 1 = Some bob_card \<and> fst bob_card = 2
   \<and> \<not> has_like db_browse 1 2 \<and> has_like db_browse 2 1 \<and> count_matches db_browse 1 2 = 1
   \<and> list_all (\<lambda>r. u_id r = 2 \<and> u_is_banned r = 1) (tl (users db_browse))
   \<and> find_handler db_browse ann
        = (db_browse, [ReplyPhoto ''file1'' (profile_text bob_card) (keyboard 2)])
   \<and> ensure_user db_full ann = (1, db_full)
   \<and> list_all (\<lambda>p. p_user_id p = 1 \<or> has_like db_full 1 (p_user_id p)) (profiles db_full)
   \<and> find_handler db_full ann = (db_full, [ReplyText msg_no_profiles])"
proof -
  have f: "fst bob_card = 2" by (simp add: bob_card_def)
  from find_candidate_scope[OF ensure_user_ann_browse] find_query_browse
  have n: "\<not> has_like db_browse 1 (fst bob_card)" by blast
  have h: "has_like db_browse 2 1" "count_matches db_browse 1 2 = 1"
    "list_all (\<lambda>r. u_id r = 2 \<and> u_is_banned r = 1) (tl (users db_browse))"
    by (simp_all add: has_like_def count_matches_def db_browse_def bob_row_def)
  have a: "list_all (\<lambda>p. p_user_id p = 1 \<or> has_like db_full 1 (p_user_id p)) (profiles db_full)"
    by (simp add: db_full_def has_like_def ann_profile_def bob_profile_def)
  with find_candidate_scope[OF ensure_user_ann_full]
  have t: "find_handler db_full ann = (db_full, [ReplyText msg_no_profiles])"
    by (simp add: list_all_iff)
  from f n h a t show ?thesis
    using ensure_user_ann_browse find_query_browse find_handler_browse ensure_user_ann_full
    by simp
qed

section \<open>A repeated like leaves one like row\<close>

text \<open>
  C3. In any state the service reaches, pressing the like button twice on the same target
  leaves exactly one like row from the presser to the target: the first press inserts the
  row unless it exists, the second inserts nothing, and neither raises; the second press
  is answered like a first one (waiting, or match). The target is an id the store can
  hold, a signed 64-bit integer; for a larger number in the payload the statement that
  looks for the like row raises \<open>OverflowError\<close> (\<open>like_overflow\<close>) and no row is written.
\<close>

theorem like_twice_one_row:
  assumes p: "parse_callback (or_empty qdata) = Some (''like'', t)" and t: "sqlite_int t"
    and e: "ensure_user (sys_db (run net evs)) u = (f, db0)"
    and c1: "callback_query_handler (sys_db (run net evs)) u qdata = (db1, acts1, err1)"
    and c2: "callback_query_handler db1 u qdata = (db2, acts2, err2)"
  shows "count_likes db1 f t = 1 \<and> count_likes db2 f t = 1 \<and> likes db2 = likes db1
    \<and> err1 = None \<and> err2 = None
    \<and> (take 2 acts2 = [Answer, EditMessageText msg_liked]
       \<or> take 2 acts2 = [Answer, EditMessageText msg_match])"
proof -
  have "count_likes (sys_db (run net evs)) f t \<le> 1"
    using sys_ok_run[of net evs] unfolding sys_ok_def likes_matches_ok_def by blast
  then have "(if count_likes (sys_db (run net evs)) f t = 0 then 1
      else count_likes (sys_db (run net evs)) f t) = 1" by auto
  with like_twice[OF p t e c1 c2] show ?thesis by simp
qed

theorem like_twice_one_row_witness:
  "callback_query_handler init_db ann (Some ''like:2'')
     = (db_ann_likes, [Answer, EditMessageText msg_liked], None)
   \<and> callback_query_handler db_ann_likes ann (Some ''like:2'')
     = (db_ann_likes, [Answer, EditMessageText msg_liked], None)
   \<and> count_likes db_ann_likes 1 2 = 1"
proof -
  have p: "parse_callback (or_empty (Some ''like:2'')) = Some (''like'', 2)"
    by (simp add: or_empty_def parse_like_2)
  have t: "sqlite_int 2" by (simp add: sqlite_int_def)
  have e: "ensure_user (sys_db (run net_up [])) ann = (1, db_ann)"
    by (simp add: run_nil ensure_user_init_ann)
  have c1: "callback_query_handler (sys_db (run net_up [])) ann (Some ''like:2'')
      = (db_ann_likes, [Answer, EditMessageText msg_liked], None)"
    by (simp add: run_nil callback_ann_like_2)
  from like_twice_one_row[OF p t e c1 callback_ann_like_2_again]
  show ?thesis using callback_ann_like_2 callback_ann_like_2_again by simp
qed

section \<open>The age step on a digit that is not decimal\<close>

text \<open>
  C4. The age step is to ask again whenever the text is no non-negative integer, to end
  the dialogue on an age below 18 and to advance only on an age of 18 or more. The handler
  does so but for one kind of text. SUPERSCRIPT TWO passes \<^verbatim>\<open>text.isdigit()\<close> and is not
  read by \<^verbatim>\<open>int(text)\<close>, which raises: the handler ends with \<open>ValueError\<close> and sends
  nothing, where it should ask again for a number. By \<open>profile_age_raises\<close> the handler
  raises exactly on the texts made of digits of which one is no decimal digit. Everything
  else holds: any other text that is no number is asked again (\<open>profile_age_reprompt\<close>), an
  age below 18 ends the dialogue and nothing is written (\<open>profile_age_minor\<close>), only an age
  of 18 or more advances (\<open>profile_age_advances\<close>), and no profile row with an age below
  18 is written in any run (\<open>profiles_adult\<close>).
\<close>

theorem profile_age_superscript_raises:
  "isdigit (strip superscript_two) \<and> py_int (strip superscript_two) = None
   \<and> profile_age ud superscript_two = Inl ValueError"
  by (simp add: profile_age_def superscript_two_def strip_def py_isspace_def isdigit_def
      isdigit_char_def is_decimal_def py_int_def int_strip_def int_isspace_def int_body_def)

section \<open>Account deletion removes every row of the user\<close>

text \<open>
  C5. When the caller has a user row, with internal id \<open>u_id row\<close>, \<open>delete_account\<close>
  leaves no profile row of that user, no like row from or to the user, no match row with
  the user on either side, no report row by or about the user, and no user row with that
  id; every other row stays, in its place. When the caller has no user row, the answer is
  "No account found." and the store is unchanged; with the external id unique, as the
  schema makes it, that is what a second \<open>delete_account\<close> finds.
\<close>

theorem delete_account_removes_all:
  "(find (\<lambda>r. u_tg_id r = tg_uid u) (users db) = Some row \<longrightarrow>
      snd (delete_account db u) = [ReplyText msg_deleted]
      \<and> (\<forall>p \<in> set (profiles (fst (delete_account db u))). p_user_id p \<noteq> u_id row)
      \<and> (\<forall>l \<in> set (likes (fst (delete_account db u))).
            l_from_user l \<noteq> u_id row \<and> l_to_user l \<noteq> u_id row)
      \<and> (\<forall>m \<in> set (matches (fst (delete_account db u))). m_a m \<noteq> u_id row \<and> m_b m \<noteq> u_id row)
      \<and> (\<forall>r \<in> set (reports (fst (delete_account db u))).
            r_reporter_id r \<noteq> u_id row \<and> r_reported_id r \<noteq> u_id row)
      \<and> (\<forall>r \<in> set (users (fst (delete_account db u))). u_id r \<noteq> u_id row)
      \<and> filter (\<lambda>p. p_user_id p \<noteq> u_id row) (profiles db) = profiles (fst (delete_account db u))
      \<and> filter (\<lambda>l. l_from_user l \<noteq> u_id row \<and> l_to_user l \<noteq> u_id row) (likes db)
          = likes (fst (delete_account db u))
      \<and> filter (\<lambda>m. m_a m \<noteq> u_id row \<and> m_b m \<noteq> u_id row) (matches db)
          = matches (fst (delete_account db u))
      \<and> filter (\<lambda>r. r_reporter_id r \<noteq> u_id row \<and> r_reported_id r \<noteq> u_id row) (reports db)
          = reports (fst (delete_account db u))
      \<and> filter (\<lambda>r. u_id r \<noteq> u_id row) (users db) = users (fst (delete_account db u)))
   \<and> (find (\<lambda>r. u_tg_id r = tg_uid u) (users db) = None \<longrightarrow>
        delete_account db u = (db, [ReplyText msg_no_account]))
   \<and> (distinct (map u_tg_id (users db)) \<longrightarrow>
        delete_account (fst (delete_account db u)) u
          = (fst (delete_account db u), [ReplyText msg_no_account]))"
  by (auto simp: delete_account_known delete_account_unknown delete_account_again)

theorem delete_account_removes_all_witness:
  "find (\<lambda>r. u_tg_id r = tg_uid ann) (users db_full) = Some ann_row
   \<and> distinct (map u_tg_id (users db_full))
   \<and> find (\<lambda>r. u_tg_id r = tg_uid ann) (users db_only_bob) = None
   \<and> delete_account db_full ann = (db_only_bob, [ReplyText msg_deleted])
   \<and> list_all (\<lambda>l. l_from_user l \<noteq> 1 \<and> l_to_user l \<noteq> 1) (likes db_only_bob)
   \<and> delete_account db_only_bob ann = (db_only_bob, [ReplyText msg_no_account])"
proof -
  have d: "distinct (map u_tg_id (users db_full))"
    by (simp add: db_full_def ann_row_def bob_row_def)
  have n: "find (\<lambda>r. u_tg_id r = tg_uid ann) (users db_only_bob) = None"
    by (simp add: db_only_bob_def ann_def bob_row_def)
  from delete_account_removes_all[of ann db_full ann_row] find_ann_db_full d
  have "\<forall>l \<in> set (likes (fst (delete_account db_full ann))).
          l_from_user l \<noteq> u_id ann_row \<and> l_to_user l \<noteq> u_id ann_row"
    and "delete_account (fst (delete_account db_full ann)) ann
          = (fst (delete_account db_full ann), [ReplyText msg_no_account])"
    by blast+
  then show ?thesis using find_ann_db_full d n delete_ann
    by (simp add: list_all_iff ann_row_def)
qed

section \<open>The relay needs an active match\<close>

text \<open>
  C6. Let \<open>sid\<close> be the internal id of the sender. For a text message: when no active match
  row holds \<open>sid\<close>, the relay answers that there is no active match and sends nothing to
  anyone else. Whatever the update, a \<open>send_message\<close> is attempted only when an active
  match row holds \<open>sid\<close> and the update is a text message. A message without text is
  answered with "Only text messages are relayed" and nothing else happens.
\<close>

theorem relay_only_with_active_match:
  assumes "ensure_user db u = (sid, db1)"
  shows "(\<not> has_active_match db1 sid \<longrightarrow>
            relay_messages net db u (Some (Message (Some tx))) = (db1, [ReplyText msg_no_active_match]))
    \<and> (\<forall>a \<in> set (snd (relay_messages net db u m)).
          is_send a \<longrightarrow> has_active_match db1 sid \<and> (\<exists>t. m = Some (Message (Some t))))
    \<and> relay_messages net db u (Some (Message None)) = (db, [ReplyText msg_only_text])
    \<and> has_active_match db1 sid = has_active_match db sid"
proof -
  have 1: "\<not> has_active_match db1 sid \<longrightarrow>
      relay_messages net db u (Some (Message (Some tx))) = (db1, [ReplyText msg_no_active_match])"
    using assms by (simp add: relay_messages_def has_active_match_iff)
  have 2: "\<forall>a \<in> set (snd (relay_messages net db u m)).
      is_send a \<longrightarrow> has_active_match db1 sid \<and> (\<exists>t. m = Some (Message (Some t)))"
    unfolding relay_actions[OF assms]
    by (cases m; cases "the m")
      (auto simp: is_send_def has_active_match_iff split: option.splits)
  have 3: "relay_messages net db u (Some (Message None)) = (db, [ReplyText msg_only_text])"
    by (simp add: relay_messages_def)
  have 4: "has_active_match db1 sid = has_active_match db sid"
    using ensure_user_other_tables(2)[of db u] assms by (simp add: has_active_match_def)
  from 1 2 3 4 show ?thesis by blast
qed

theorem relay_only_with_active_match_witness:
  "ensure_user db_two_likes ann = (1, db_two_likes)
   \<and> relay_messages net_up db_two_likes ann (Some (Message (Some ''hi'')))
       = (db_two_likes, [SendMessage 1002 (''Anonymous#1:'' @ newline @ ''hi''), ReplyText msg_sent])
   \<and> is_send (SendMessage 1002 (''Anonymous#1:'' @ newline @ ''hi''))
   \<and> has_active_match db_two_likes 1
   \<and> ensure_user db_ann ann = (1, db_ann)
   \<and> \<not> has_active_match db_ann 1
   \<and> relay_messages net_up db_ann ann (Some (Message (Some ''hi'')))
       = (db_ann, [ReplyText msg_no_active_match])"
proof -
  have s: "is_send (SendMessage 1002 (''Anonymous#1:'' @ newline @ ''hi''))"
    by (simp add: is_send_def)
  have "SendMessage 1002 (''Anonymous#1:'' @ newline @ ''hi'')
      \<in> set (snd (relay_messages net_up db_two_likes ann (Some (Message (Some ''hi'')))))"
    by (simp add: relay_ann_two_likes)
  with relay_only_with_active_match[OF ensure_user_ann_two_likes, of net_up "''hi''"
      "Some (Message (Some ''hi''))"] s
  have a: "has_active_match db_two_likes 1" by blast
  have n: "\<not> has_active_match db_ann 1" by (simp add: has_active_match_def db_ann_def)
  with relay_only_with_active_match[OF ensure_user_ann_db_ann, of net_up "''hi''"]
  have "relay_messages net_up db_ann ann (Some (Message (Some ''hi'')))
       = (db_ann, [ReplyText msg_no_active_match])" by blast
  with a n s show ?thesis
    using ensure_user_ann_two_likes ensure_user_ann_db_ann relay_ann_two_likes by simp
qed

section \<open>The identity resolver is idempotent\<close>

text \<open>
  C7. Two calls of \<open>ensure_user\<close> with the same external identity return the same internal
  id, and the second call changes nothing. On first contact (no row holds the external id)
  the first call appends exactly one row, whose name is the stripped "first last" when that
  is not empty and else the username, the empty string when there is none; afterwards
  exactly one row holds the external id. When a row exists already, no row is created.
\<close>

theorem ensure_user_idempotent:
  assumes "ensure_user db u = (uid, db1)" and "ensure_user db1 u = (uid2, db2)"
  shows "uid2 = uid \<and> db2 = db1
    \<and> (if count_users db (tg_uid u) = 0
        then users db1 = users db @
               [\<lparr>u_id = uid, u_tg_id = tg_uid u, u_username = tg_username u,
                 u_name = Some (if strip (or_empty (first_name u) @ '' '' @ or_empty (last_name u)) = []
                                then or_empty (tg_username u)
                                else strip (or_empty (first_name u) @ '' '' @ or_empty (last_name u))),
                 u_is_banned = 0\<rparr>]
             \<and> count_users db2 (tg_uid u) = 1
        else db1 = db)"
proof (cases "find (\<lambda>r. u_tg_id r = tg_uid u) (users db)")
  case None
  from ensure_user_new[OF None] assms(1)
  have uid: "uid = next_rowid (map u_id (users db))"
    and db1: "db1 = db\<lparr>users := users db @
        [\<lparr>u_id = uid, u_tg_id = tg_uid u,
          u_username = tg_username u, u_name = Some (display_name u), u_is_banned = 0\<rparr>]\<rparr>"
    by auto
  have "find (\<lambda>r. u_tg_id r = tg_uid u) (users db1) = Some \<lparr>u_id = uid, u_tg_id = tg_uid u,
          u_username = tg_username u, u_name = Some (display_name u), u_is_banned = 0\<rparr>"
    using None by (simp add: db1 find_append)
  from ensure_user_known[OF this] assms(2) have "uid2 = uid" "db2 = db1" by auto
  moreover have "count_users db (tg_uid u) = 0" using None by (simp add: count_users_zero)
  moreover have "count_users db1 (tg_uid u) = 1"
    using \<open>count_users db (tg_uid u) = 0\<close> by (simp add: db1 count_users_def)
  ultimately show ?thesis using db1 by (simp add: display_name_eq)
next
  case (Some row)
  from ensure_user_known[OF Some] assms(1) have 1: "uid = u_id row" "db1 = db" by auto
  with ensure_user_known[OF Some] assms(2) have "uid2 = uid" "db2 = db1" by auto
  moreover have "count_users db (tg_uid u) \<noteq> 0" using Some by (simp add: count_users_zero)
  ultimately show ?thesis using 1 by simp
qed

theorem ensure_user_idempotent_witness:
  "ensure_user init_db ann = (1, init_db\<lparr>users := [ann_row]\<rparr>)
   \<and> ensure_user (init_db\<lparr>users := [ann_row]\<rparr>) ann = (1, init_db\<lparr>users := [ann_row]\<rparr>)
   \<and> count_users init_db (tg_uid ann) = 0
   \<and> count_users (init_db\<lparr>users := [ann_row]\<rparr>) (tg_uid ann) = 1"
  using ensure_user_idempotent[OF ensure_user_ann ensure_user_ann_again]
    ensure_user_ann ensure_user_ann_again
  by (simp add: count_users_def init_db_def)

section \<open>The relayed text does not depend on the sender's name\<close>

text \<open>
  C8. Every text the relay sends to the other party is "Anonymous#", the sender's internal
  id, a colon, a line break and the sender's text. Two runs of the relay give the same
  outbound calls when they agree on the sender's external id, on the id and external id
  columns of the users table and on the matches table, whatever the name and username
  columns of the store and the name fields of the sender are.
\<close>

theorem relay_label_hides_name:
  assumes "map id_columns (users db') = map id_columns (users db)"
    and "matches db' = matches db" and "tg_uid u' = tg_uid u"
  shows "snd (relay_messages net db' u' m) = snd (relay_messages net db u m)
    \<and> (\<forall>a \<in> set (snd (relay_messages net db u (Some (Message (Some tx))))).
          is_send a \<longrightarrow>
          (\<exists>chat_id. a = SendMessage chat_id
             (''Anonymous#'' @ py_str (fst (ensure_user db u)) @ '':'' @ newline @ tx)))"
proof -
  obtain sid db1 where e: "ensure_user db u = (sid, db1)" by (cases "ensure_user db u") auto
  obtain sid' db1' where e': "ensure_user db' u' = (sid', db1')" by (cases "ensure_user db' u'") auto
  from ensure_user_id_columns[OF assms(1,3)] e e'
  have sid: "sid' = sid" and cols: "map id_columns (users db1') = map id_columns (users db1)"
    by simp_all
  have m: "matches db1' = matches db1"
    using ensure_user_other_tables(2)[of db u] ensure_user_other_tables(2)[of db' u'] e e' assms(2)
    by simp
  have lookup: "\<And>i. map_option u_tg_id (find (\<lambda>r. u_id r = i) (users db1'))
      = map_option u_tg_id (find (\<lambda>r. u_id r = i) (users db1))"
    by (simp add: find_by_id_id_columns cols)
  have "snd (relay_messages net db' u' m) = snd (relay_messages net db u m)"
    unfolding relay_actions[OF e] relay_actions[OF e'] sid m lookup by (rule refl)
  moreover have "\<forall>a \<in> set (snd (relay_messages net db u (Some (Message (Some tx))))).
          is_send a \<longrightarrow>
          (\<exists>chat_id. a = SendMessage chat_id
             (''Anonymous#'' @ py_str (fst (ensure_user db u)) @ '':'' @ newline @ tx))"
    unfolding relay_actions[OF e] using e
    by (auto simp: is_send_def split: option.splits)
  ultimately show ?thesis by blast
qed

theorem relay_label_hides_name_witness:
  "map id_columns (users db_renamed) = map id_columns (users db_two_likes)
   \<and> matches db_renamed = matches db_two_likes \<and> tg_uid zoe = tg_uid ann
   \<and> snd (relay_messages net_up db_renamed zoe (Some (Message (Some ''hi''))))
       = [SendMessage 1002 (''Anonymous#1:'' @ newline @ ''hi''), ReplyText msg_sent]
   \<and> snd (relay_messages net_up db_two_likes ann (Some (Message (Some ''hi''))))
       = [SendMessage 1002 (''Anonymous#1:'' @ newline @ ''hi''), ReplyText msg_sent]"
proof -
  have c: "map id_columns (users db_renamed) = map id_columns (users db_two_likes)"
    by (simp add: db_renamed_def db_two_likes_def id_columns_def ann_row_def bob_row_def)
  have m: "matches db_renamed = matches db_two_likes"
    by (simp add: db_renamed_def db_two_likes_def)
  have t: "tg_uid zoe = tg_uid ann" by (simp add: zoe_def ann_def)
  from relay_label_hides_name[OF c m t, of net_up "Some (Message (Some ''hi''))"]
  have "snd (relay_messages net_up db_renamed zoe (Some (Message (Some ''hi''))))
      = snd (relay_messages net_up db_two_likes ann (Some (Message (Some ''hi''))))" by blast
  then show ?thesis using c m t by (simp add: relay_ann_two_likes)
qed

section \<open>A like of oneself creates a match with oneself\<close>

text \<open>
  C9. In any state the service reaches, for a presser with internal id \<open>uid\<close> (a new user
  receives it from \<open>ensure_user\<close>) and no like row from \<open>uid\<close> to \<open>uid\<close>: the button press
  with the payload like:uid appends that like row, the reciprocal check finds the same row,
  and a match row with both sides \<open>uid\<close> is appended; the presser is told of the match and
  also receives the notification meant for the other party.
\<close>

theorem self_like_self_match:
  assumes e: "ensure_user (sys_db (run net evs)) u = (uid, db1)"
    and n: "\<not> has_like (sys_db (run net evs)) uid uid"
    and t: "sqlite_int uid"
  shows "callback_query_handler (sys_db (run net evs)) u (Some (''like:'' @ py_str uid)) =
     (db1\<lparr>likes := likes db1 @
           [\<lparr>l_id = next_rowid (map l_id (likes db1)), l_from_user = uid, l_to_user = uid\<rparr>],
         matches := matches db1 @
           [\<lparr>m_id = next_rowid (map m_id (matches db1)), m_a = uid, m_b = uid, m_active = 1\<rparr>]\<rparr>,
      [Answer, EditMessageText msg_match, SendMessage (tg_uid u) msg_new_match], None)"
proof -
  define db where "db = sys_db (run net evs)"
  have ok: "likes_matches_ok db" "users_ok db"
    using sys_ok_run[of net evs] by (simp_all add: sys_ok_def db_def)
  have l1: "likes db1 = likes db" and m1: "matches db1 = matches db"
    using ensure_user_other_tables[of db u] e by (simp_all add: db_def)
  have n1: "find (\<lambda>l. l_from_user l = uid \<and> l_to_user l = uid) (likes db1) = None"
    using n by (simp add: has_like_iff l1 db_def)
  have "count_matches db uid uid = 0"
  proof (rule ccontr)
    assume "count_matches db uid uid \<noteq> 0"
    then obtain m where "m \<in> set (matches db)" "m_a m = uid" "m_b m = uid"
      by (auto simp: count_matches_def filter_empty_conv)
    with ok(1) have "has_like db uid uid" unfolding likes_matches_ok_def by force
    with n show False by (simp add: db_def)
  qed
  then have nm: "find (\<lambda>m. m_a m = uid \<and> m_b m = uid) (matches db1) = None"
    by (auto simp: count_matches_def filter_empty_conv find_None_iff m1)
  obtain row where row: "find (\<lambda>r. u_id r = uid) (users db1) = Some row" "u_tg_id row = tg_uid u"
    using ensure_user_finds_own_row[OF ok(2) e[folded db_def]] by blast
  have p: "parse_callback (or_empty (Some (''like:'' @ py_str uid))) = Some (''like'', uid)"
    using parse_callback_like[of uid] by (simp add: or_empty_def)
  have "callback_query_handler db u (Some (''like:'' @ py_str uid)) = like_action db1 uid uid"
    using callback_like[OF p e] by (simp add: db_def)
  also have "\<dots> = (db1\<lparr>likes := likes db1 @
           [\<lparr>l_id = next_rowid (map l_id (likes db1)), l_from_user = uid, l_to_user = uid\<rparr>],
         matches := matches db1 @
           [\<lparr>m_id = next_rowid (map m_id (matches db1)), m_a = uid, m_b = uid, m_active = 1\<rparr>]\<rparr>,
      [Answer, EditMessageText msg_match, SendMessage (tg_uid u) msg_new_match], None)"
    using t n1 nm row
    by (simp add: like_action_def Let_def insert_like_def insert_match_def find_append)
  finally show ?thesis by (simp add: db_def)
qed

theorem self_like_self_match_witness:
  "ensure_user init_db ann = (1, db_ann) \<and> \<not> has_like init_db 1 1 \<and> sqlite_int 1
   \<and> callback_query_handler init_db ann (Some ''like:1'')
       = (db_ann_self, [Answer, EditMessageText msg_match, SendMessage 1001 msg_new_match], None)"
proof -
  have e: "ensure_user (sys_db (run net_up [])) ann = (1, db_ann)"
    by (simp add: run_nil ensure_user_init_ann)
  have n: "\<not> has_like (sys_db (run net_up [])) 1 1"
    by (simp add: run_nil has_like_def init_db_def)
  have t: "sqlite_int 1" by (simp add: sqlite_int_def)
  from self_like_self_match[OF e n t] show ?thesis
    using ensure_user_init_ann n t
    by (simp add: run_nil py_str_1 db_ann_def db_ann_self_def next_rowid_def ann_def)
qed

section \<open>A failed report still creates the reporter\<close>

text \<open>
  C10. A reporter without a user row sends /report with at least two arguments, the first
  a number the store can hold, and the lookup of that external id finds no user (by
  \<open>count_users_after_ensure\<close>: no row held it before and it is not the reporter's own
  id, whose row \<open>ensure_user\<close> has just created). Then the command answers "User not found",
  inserts no report row, and the reporter's user row remains: \<open>ensure_user\<close> ran, and
  committed, before the lookup.
\<close>

theorem report_unknown_target_creates_reporter:
  assumes r: "count_users db (tg_uid u) = 0"
    and a: "2 \<le> length args" and i: "py_int (hd args) = Some target" and s: "sqlite_int target"
    and n: "count_users (snd (ensure_user db u)) target = 0"
  shows "report_handler db u args =
     (db\<lparr>users := users db @
         [\<lparr>u_id = next_rowid (map u_id (users db)), u_tg_id = tg_uid u,
           u_username = tg_username u, u_name = Some (display_name u), u_is_banned = 0\<rparr>]\<rparr>,
      [ReplyText msg_user_not_found], None)
    \<and> reports (fst (report_handler db u args)) = reports db
    \<and> count_users (fst (report_handler db u args)) (tg_uid u) = 1"
proof -
  have f: "find (\<lambda>r. u_tg_id r = tg_uid u) (users db) = None"
    using r by (simp add: count_users_zero)
  note e = ensure_user_new[OF f]
  have "find (\<lambda>r. u_tg_id r = target) (users (snd (ensure_user db u))) = None"
    using n by (simp add: count_users_zero)
  then have "report_handler db u args =
     (snd (ensure_user db u), [ReplyText msg_user_not_found], None)"
    using a i s by (cases "ensure_user db u") (simp add: report_handler_def Let_def)
  then show ?thesis using r by (simp add: e count_users_def)
qed

theorem report_unknown_target_creates_reporter_witness:
  "count_users init_db (tg_uid ann) = 0 \<and> 2 \<le> length report_args
   \<and> py_int (hd report_args) = Some 555 \<and> sqlite_int 555
   \<and> count_users (snd (ensure_user init_db ann)) 555 = 0
   \<and> report_handler init_db ann report_args = (db_ann, [ReplyText msg_user_not_found], None)"
proof -
  have r: "count_users init_db (tg_uid ann) = 0" by (simp add: count_users_def init_db_def)
  have a: "2 \<le> length report_args" by (simp add: report_args_def)
  have i: "py_int (hd report_args) = Some 555" by (simp add: report_args_def py_int_555)
  have s: "sqlite_int 555" by (simp add: sqlite_int_def)
  have n: "count_users (snd (ensure_user init_db ann)) 555 = 0"
    by (simp add: ensure_user_init_ann db_ann_def ann_row_def count_users_def)
  from report_unknown_target_creates_reporter[OF r a i s n]
  have "report_handler init_db ann report_args =
     (init_db\<lparr>users := users init_db @
         [\<lparr>u_id = next_rowid (map u_id (users init_db)), u_tg_id = tg_uid ann,
           u_username = tg_username ann, u_name = Some (display_name ann), u_is_banned = 0\<rparr>]\<rparr>,
      [ReplyText msg_user_not_found], None)" by simp
  also have "init_db\<lparr>users := users init_db @
         [\<lparr>u_id = next_rowid (map u_id (users init_db)), u_tg_id = tg_uid ann,
           u_username = tg_username ann, u_name = Some (display_name ann), u_is_banned = 0\<rparr>]\<rparr>
      = db_ann"
    by (simp add: init_db_def db_ann_def ann_def ann_row_def eval_defs)
  finally show ?thesis using r a i s n by simp
qed

end
